theory Spec2Isabelle
  imports Complex_Main "HOL-Library.Multiset" "HOL-Library.Product_Lexorder"
begin

section \<open>JavaScript values used by macc.js\<close>

text \<open>
  A JavaScript number is a finite value, one of the two infinities, or NaN, and a
  finite value is held as a \<^typ>\<open>real\<close>. The non-finite values follow IEEE: they
  are what \<open>Number\<close>, \<open>isFinite\<close>, \<open>||\<close> and the comparisons of the source decide
  on. \<open>-0\<close> is identified with \<open>0\<close> (the program never divides by a zero, see
  \<open>divisor_nonzero\<close> below).

  The operations \<open>js_add\<close>, \<open>js_sub\<close>, \<open>js_mul\<close> and \<open>js_div\<close> compute the finite
  case without rounding. This is an idealisation of the engine, which rounds every
  result to a double: it is used for the scales, the ticks and the pixel geometry,
  where the results below are about orders, counts and the shape of the formulas, and
  an equation between pixel values proved with it holds of the engine up to rounding
  only. The running sum of lines 114 to 116, where a statement about a range and its
  quantity depends on the rounding, is also given with the engine's rounded addition
  (\<open>double_add\<close>, \<open>double_total\<close> and \<open>double_accumulate\<close> below).
\<close>

datatype jsnum = Fin real | PInf | NInf | NaN

fun isFinite :: "jsnum \<Rightarrow> bool" where
  "isFinite (Fin r) = True"
| "isFinite _ = False"

fun isNaN :: "jsnum \<Rightarrow> bool" where
  "isNaN NaN = True"
| "isNaN _ = False"

text \<open>Truthiness of a number: \<open>0\<close> and \<open>NaN\<close> are falsy.\<close>

fun truthy_num :: "jsnum \<Rightarrow> bool" where
  "truthy_num (Fin r) = (r \<noteq> 0)"
| "truthy_num NaN = False"
| "truthy_num _ = True"

fun js_neg :: "jsnum \<Rightarrow> jsnum" where
  "js_neg (Fin r) = Fin (- r)"
| "js_neg PInf = NInf"
| "js_neg NInf = PInf"
| "js_neg NaN = NaN"

fun js_add :: "jsnum \<Rightarrow> jsnum \<Rightarrow> jsnum" where
  "js_add (Fin a) (Fin b) = Fin (a + b)"
| "js_add NaN _ = NaN"
| "js_add _ NaN = NaN"
| "js_add PInf NInf = NaN"
| "js_add NInf PInf = NaN"
| "js_add PInf _ = PInf"
| "js_add _ PInf = PInf"
| "js_add NInf _ = NInf"
| "js_add _ NInf = NInf"

definition js_sub :: "jsnum \<Rightarrow> jsnum \<Rightarrow> jsnum" where
  "js_sub a b = js_add a (js_neg b)"

fun js_mul :: "jsnum \<Rightarrow> jsnum \<Rightarrow> jsnum" where
  "js_mul (Fin a) (Fin b) = Fin (a * b)"
| "js_mul NaN _ = NaN"
| "js_mul _ NaN = NaN"
| "js_mul (Fin a) PInf = (if a = 0 then NaN else if 0 < a then PInf else NInf)"
| "js_mul (Fin a) NInf = (if a = 0 then NaN else if 0 < a then NInf else PInf)"
| "js_mul PInf (Fin b) = (if b = 0 then NaN else if 0 < b then PInf else NInf)"
| "js_mul NInf (Fin b) = (if b = 0 then NaN else if 0 < b then NInf else PInf)"
| "js_mul PInf PInf = PInf"
| "js_mul PInf NInf = NInf"
| "js_mul NInf PInf = NInf"
| "js_mul NInf NInf = PInf"

fun js_div :: "jsnum \<Rightarrow> jsnum \<Rightarrow> jsnum" where
  "js_div (Fin a) (Fin b) =
     (if b = 0 then (if a = 0 then NaN else if 0 < a then PInf else NInf) else Fin (a / b))"
| "js_div NaN _ = NaN"
| "js_div _ NaN = NaN"
| "js_div (Fin a) _ = Fin 0"
| "js_div PInf (Fin b) = (if 0 \<le> b then PInf else NInf)"
| "js_div NInf (Fin b) = (if 0 \<le> b then NInf else PInf)"
| "js_div _ _ = NaN"

text \<open>The comparisons \<open><\<close> and \<open><=\<close>; \<open>a > b\<close> is \<open>js_lt b a\<close> and \<open>a >= b\<close> is
  \<open>js_le b a\<close>. Every comparison with NaN is false.\<close>

fun js_lt :: "jsnum \<Rightarrow> jsnum \<Rightarrow> bool" where
  "js_lt (Fin a) (Fin b) = (a < b)"
| "js_lt NaN _ = False"
| "js_lt _ NaN = False"
| "js_lt _ NInf = False"
| "js_lt PInf _ = False"
| "js_lt _ _ = True"

fun js_le :: "jsnum \<Rightarrow> jsnum \<Rightarrow> bool" where
  "js_le (Fin a) (Fin b) = (a \<le> b)"
| "js_le NaN _ = False"
| "js_le _ NaN = False"
| "js_le NInf _ = True"
| "js_le _ PInf = True"
| "js_le _ _ = False"

text \<open>\<open>Math.min\<close>, \<open>Math.max\<close> and \<open>Math.abs\<close>; a NaN argument gives NaN.\<close>

definition Math_min :: "jsnum \<Rightarrow> jsnum \<Rightarrow> jsnum" where
  "Math_min a b = (if isNaN a \<or> isNaN b then NaN else if js_le a b then a else b)"

definition Math_max :: "jsnum \<Rightarrow> jsnum \<Rightarrow> jsnum" where
  "Math_max a b = (if isNaN a \<or> isNaN b then NaN else if js_le a b then b else a)"

fun Math_abs :: "jsnum \<Rightarrow> jsnum" where
  "Math_abs (Fin r) = Fin \<bar>r\<bar>"
| "Math_abs NaN = NaN"
| "Math_abs _ = PInf"

text \<open>The real number a finite value stands for (0 for the others, which have none).\<close>

fun fin_val :: "jsnum \<Rightarrow> real" where
  "fin_val (Fin r) = r"
| "fin_val _ = 0"

section \<open>Rounding to doubles\<close>

text \<open>
  The result of an IEEE 754 binary64 operation is the exact result rounded to the
  nearest double, ties to the even significand. The doubles of the binade
  \<open>[2^e, 2^(e+1))\<close> are the multiples of \<open>2^(e-52)\<close>; below \<open>2^-1022\<close> (the
  subnormal range) the spacing stays \<open>2^-1074\<close>. \<open>binade\<close> is the exponent \<open>e\<close> of a
  number and \<open>ulp\<close> the spacing of the doubles around it.
\<close>

definition binade :: "real \<Rightarrow> int" where
  "binade x = max \<lfloor>log 2 \<bar>x\<bar>\<rfloor> (- 1022)"

definition ulp :: "real \<Rightarrow> real" where
  "ulp x = 2 powr (real_of_int (binade x) - 52)"

text \<open>The nearest integer, a tie going to the even one.\<close>

definition round_even :: "real \<Rightarrow> int" where
  "round_even y =
     (let f = \<lfloor>y\<rfloor>
      in if y - real_of_int f < 1 / 2 then f
         else if 1 / 2 < y - real_of_int f then f + 1
         else if even f then f else f + 1)"

text \<open>The double a real number is rounded to: an infinity when the rounded value
  reaches \<open>2^1024\<close>.\<close>

definition fl :: "real \<Rightarrow> jsnum" where
  "fl x =
     (if x = 0 then Fin 0
      else let r = real_of_int (round_even (x / ulp x)) * ulp x
           in if 2 powr 1024 \<le> \<bar>r\<bar> then (if 0 < x then PInf else NInf) else Fin r)"

text \<open>\<open>a + b\<close> and \<open>a - b\<close> as the engine computes them: the exact sum of two finite
  numbers, rounded; the other cases are those of \<open>js_add\<close>.\<close>

fun double_add :: "jsnum \<Rightarrow> jsnum \<Rightarrow> jsnum" where
  "double_add (Fin a) (Fin b) = fl (a + b)"
| "double_add a b = js_add a b"

definition double_sub :: "jsnum \<Rightarrow> jsnum \<Rightarrow> jsnum" where
  "double_sub a b = double_add a (js_neg b)"

section \<open>Values and options\<close>

text \<open>
  The primitive values a row entry or a style option can hold, and the values a style
  option can hold besides: a plain object with primitive properties (a colour option is
  \<open>{color: '#4C78A8'}\<close>). Strings are lists of bytes (UTF-8).
\<close>

datatype prim = Undefined | Null | JBool bool | JNum jsnum | JStr string

datatype jsval = Prim prim | Obj "(string \<times> prim) list"

fun truthy :: "prim \<Rightarrow> bool" where
  "truthy Undefined = False"
| "truthy Null = False"
| "truthy (JBool b) = b"
| "truthy (JNum n) = truthy_num n"
| "truthy (JStr s) = (s \<noteq> [])"

text \<open>\<open>a ?? b\<close>: \<open>b\<close> when \<open>a\<close> is \<open>undefined\<close> or \<open>null\<close>.\<close>

fun nullish :: "prim \<Rightarrow> prim \<Rightarrow> prim" where
  "nullish Undefined d = d"
| "nullish Null d = d"
| "nullish v d = v"

text \<open>
  What the program is given by its host and by the JavaScript engine: the size the
  \<open>dscc\<close> library reports (\<open>None\<close> when the library has no such function), the
  size of the root element, and the engine's conversions between strings and numbers,
  which the source calls through \<open>Number\<close>, \<open>toLocaleString\<close> and \<open>+\<close>:
  \<open>stringToNumber\<close> is \<open>Number\<close> on a string, \<open>numberToString\<close> the string form
  of a number, \<open>localeFormat f d\<close> the locale's text for the number \<open>f\<close> with both
  fraction-digit options set to \<open>d\<close>, and \<open>maxFractionDigits\<close> the largest digit
  option the engine accepts.
\<close>

record host =
  getWidth :: "int option"
  getHeight :: "int option"
  clientWidth :: int
  clientHeight :: int
  stringToNumber :: "string \<Rightarrow> jsnum"
  numberToString :: "jsnum \<Rightarrow> string"
  localeFormat :: "jsnum \<Rightarrow> jsnum \<Rightarrow> string"
  maxFractionDigits :: nat

text \<open>\<open>Number(v)\<close> on a primitive and on a style value. A plain object converts to NaN
  (its string form is \<open>[object Object]\<close>).\<close>

fun Number_prim :: "host \<Rightarrow> prim \<Rightarrow> jsnum" where
  "Number_prim h Undefined = NaN"
| "Number_prim h Null = Fin 0"
| "Number_prim h (JBool b) = Fin (if b then 1 else 0)"
| "Number_prim h (JNum n) = n"
| "Number_prim h (JStr s) = stringToNumber h s"

fun Number_val :: "host \<Rightarrow> jsval \<Rightarrow> jsnum" where
  "Number_val h (Prim p) = Number_prim h p"
| "Number_val h (Obj ps) = NaN"

fun String_prim :: "host \<Rightarrow> prim \<Rightarrow> string" where
  "String_prim h Undefined = ''undefined''"
| "String_prim h Null = ''null''"
| "String_prim h (JBool b) = (if b then ''true'' else ''false'')"
| "String_prim h (JNum n) = numberToString h n"
| "String_prim h (JStr s) = s"

fun String_val :: "host \<Rightarrow> jsval \<Rightarrow> string" where
  "String_val h (Prim p) = String_prim h p"
| "String_val h (Obj ps) = ''[object Object]''"

section \<open>Helpers\<close>

datatype error = RangeError

text \<open>
  \<open>Number.prototype.toLocaleString\<close> with \<open>minimumFractionDigits\<close> and
  \<open>maximumFractionDigits\<close> both \<open>decimals\<close>: the engine raises a RangeError unless
  the digit option is a number between 0 and its limit, and gives the host's formatting
  of the number for that option otherwise.
\<close>

fun toLocaleString :: "host \<Rightarrow> jsnum \<Rightarrow> jsnum \<Rightarrow> error + string" where
  "toLocaleString h f (Fin d) =
     (if 0 \<le> d \<and> d \<le> real (maxFractionDigits h)
      then Inr (localeFormat h f (Fin d)) else Inl RangeError)"
| "toLocaleString h f _ = Inl RangeError"

definition fmtNumber :: "host \<Rightarrow> jsnum \<Rightarrow> jsnum \<Rightarrow> error + string" where
  "fmtNumber h x decimals = (if isNaN x then Inr '''' else toLocaleString h x decimals)"

text \<open>
  A style option is an object with a \<open>value\<close> and a \<open>defaultValue\<close>
  (\<open>Prim Undefined\<close> when the property is absent); the style bag maps option names to
  them. \<open>getStyle\<close>'s \<open>catch\<close> is not reachable on such a bag: \<open>styleObj\<close> is an
  object (\<open>data.style || {}\<close>) and \<open>v\<close> is read only when it is one.
\<close>

record style_entry =
  entry_value :: jsval
  defaultValue :: jsval

type_synonym style_bag = "string \<Rightarrow> style_entry option"

definition getStyle :: "style_bag \<Rightarrow> string \<Rightarrow> jsval \<Rightarrow> jsval" where
  "getStyle styleObj key fallback =
     (case styleObj key of
        None \<Rightarrow> fallback
      | Some v \<Rightarrow>
          (if entry_value v \<noteq> Prim Undefined \<and> entry_value v \<noteq> Prim Null then entry_value v
           else if defaultValue v = Prim Undefined \<or> defaultValue v = Prim Null then fallback
           else defaultValue v))"

text \<open>\<open>o.color\<close> on a style value, and \<open>a || b\<close> on primitives and on numbers.\<close>

fun color_of :: "jsval \<Rightarrow> prim" where
  "color_of (Obj ps) = (case map_of ps ''color'' of None \<Rightarrow> Undefined | Some c \<Rightarrow> c)"
| "color_of (Prim p) = Undefined"

definition or_prim :: "prim \<Rightarrow> prim \<Rightarrow> prim" where
  "or_prim a b = (if truthy a then a else b)"

definition or_num :: "jsnum \<Rightarrow> jsnum \<Rightarrow> jsnum" where
  "or_num a b = (if truthy_num a then a else b)"

text \<open>The style constants of \<open>draw\<close> (lines 79 to 86 of macc.js).\<close>

definition posColor :: "style_bag \<Rightarrow> prim" where
  "posColor styles =
     or_prim (color_of (getStyle styles ''posColor'' (Obj [(''color'', JStr ''#4C78A8'')])))
       (JStr ''#4C78A8'')"

definition negColor :: "style_bag \<Rightarrow> prim" where
  "negColor styles =
     or_prim (color_of (getStyle styles ''negColor'' (Obj [(''color'', JStr ''#72B7B2'')])))
       (JStr ''#72B7B2'')"

definition axisColor :: "style_bag \<Rightarrow> prim" where
  "axisColor styles =
     or_prim (color_of (getStyle styles ''axisColor'' (Obj [(''color'', JStr ''#333333'')])))
       (JStr ''#333333'')"

definition showLabels :: "style_bag \<Rightarrow> jsval" where
  "showLabels styles = getStyle styles ''showLabels'' (Prim (JBool True))"

definition currency :: "style_bag \<Rightarrow> jsval" where
  "currency styles = getStyle styles ''currency'' (Prim (JStr ''R$''))"

definition unit_sym :: "style_bag \<Rightarrow> jsval" where
  "unit_sym styles = getStyle styles ''unit'' (Prim (JStr ''tCO2e''))"

definition decimals :: "host \<Rightarrow> style_bag \<Rightarrow> jsnum" where
  "decimals h styles =
     or_num (Number_val h (getStyle styles ''decimals'' (Prim (JNum (Fin 2))))) (Fin 2)"

section \<open>The data of one draw\<close>

text \<open>
  A row of \<open>data.tables.DEFAULT\<close>: each field, when present, is an array of primitive
  values. \<open>r.f && r.f[0]\<close> is \<open>undefined\<close> for an absent field and for an empty array.
\<close>

record row =
  actionDim :: "prim list option"
  abatementMetric :: "prim list option"
  costMetric :: "prim list option"
  categoryDim :: "prim list option"

record tables_obj =
  DEFAULT :: "row list option"

record data =
  style :: "style_bag option"
  tables :: "tables_obj option"

fun first_of :: "prim list option \<Rightarrow> prim" where
  "first_of None = Undefined"
| "first_of (Some []) = Undefined"
| "first_of (Some (v # vs)) = v"

text \<open>The items of the chart; \<open>x0\<close> and \<open>x1\<close> are added by the accumulation.\<close>

record item =
  action :: prim
  abatement :: jsnum
  cost :: jsnum
  category :: prim

record placed = item +
  x0 :: jsnum
  x1 :: jsnum

text \<open>The placeholder label is an em dash (U+2014), three bytes in UTF-8.\<close>

definition dash :: string where
  "dash = [CHR 0xE2, CHR 0x80, CHR 0x94]"

definition mk_item :: "host \<Rightarrow> row \<Rightarrow> item" where
  "mk_item h r =
     \<lparr> action = nullish (first_of (actionDim r)) (JStr dash),
       abatement = Number_prim h (nullish (first_of (abatementMetric r)) (JNum (Fin 0))),
       cost = Number_prim h (nullish (first_of (costMetric r)) (JNum (Fin 0))),
       category = nullish (first_of (categoryDim r)) Null \<rparr>"

definition rows_of :: "data \<Rightarrow> row list" where
  "rows_of d =
     (case tables d of
        None \<Rightarrow> []
      | Some t \<Rightarrow> (case DEFAULT t of None \<Rightarrow> [] | Some rs \<Rightarrow> rs))"

definition keep :: "item \<Rightarrow> bool" where
  "keep d = (isFinite (abatement d) \<and> js_lt (Fin 0) (abatement d))"

definition items :: "host \<Rightarrow> row list \<Rightarrow> item list" where
  "items h rows = filter keep (map (mk_item h) rows)"

text \<open>
  \<open>items.sort((a,b) => a.cost - b.cost)\<close>. \<open>Array.prototype.sort\<close> is stable and
  reads a NaN from the comparator as 0. For a consistent comparator every stable sort
  returns the same array (\<open>Array_sort_unique\<close> below), so insertion from the right
  stands for the engine's algorithm; for an inconsistent one (a NaN cost gives one) the language leaves the
  order to the engine, and this is one of the orders it may return.
\<close>

definition by_cost :: "item \<Rightarrow> item \<Rightarrow> jsnum" where
  "by_cost a b = js_sub (cost a) (cost b)"

fun insert_sorted :: "('a \<Rightarrow> 'a \<Rightarrow> jsnum) \<Rightarrow> 'a \<Rightarrow> 'a list \<Rightarrow> 'a list" where
  "insert_sorted cmp x [] = [x]"
| "insert_sorted cmp x (y # ys) =
     (if js_lt (Fin 0) (cmp x y) then y # insert_sorted cmp x ys else x # y # ys)"

definition Array_sort :: "('a \<Rightarrow> 'a \<Rightarrow> jsnum) \<Rightarrow> 'a list \<Rightarrow> 'a list" where
  "Array_sort cmp xs = foldr (insert_sorted cmp) xs []"

text \<open>The running sum (lines 114 to 116): \<open>reduce\<close> from 0, then \<open>forEach\<close> with
  \<open>acc\<close>.\<close>

definition totalAbatement :: "item list \<Rightarrow> jsnum" where
  "totalAbatement ds = foldl (\<lambda>s d. js_add s (abatement d)) (Fin 0) ds"

fun accumulate :: "jsnum \<Rightarrow> item list \<Rightarrow> placed list" where
  "accumulate acc [] = []"
| "accumulate acc (d # ds) =
     \<lparr> action = action d, abatement = abatement d, cost = cost d, category = category d,
       x0 = acc, x1 = js_add acc (abatement d) \<rparr>
     # accumulate (js_add acc (abatement d)) ds"

text \<open>The same two passes (lines 114 to 116) with every \<open>+\<close> rounded to a double, as
  the engine computes it.\<close>

definition double_total :: "item list \<Rightarrow> jsnum" where
  "double_total ds = foldl (\<lambda>s d. double_add s (abatement d)) (Fin 0) ds"

fun double_accumulate :: "jsnum \<Rightarrow> item list \<Rightarrow> placed list" where
  "double_accumulate acc [] = []"
| "double_accumulate acc (d # ds) =
     \<lparr> action = action d, abatement = abatement d, cost = cost d, category = category d,
       x0 = acc, x1 = double_add acc (abatement d) \<rparr>
     # double_accumulate (double_add acc (abatement d)) ds"

text \<open>\<open>Math.min(0, ...costs)\<close> and \<open>Math.max(0, ...costs)\<close>.\<close>

definition minCost :: "'a item_scheme list \<Rightarrow> jsnum" where
  "minCost ds = foldl Math_min (Fin 0) (map cost ds)"

definition maxCost :: "'a item_scheme list \<Rightarrow> jsnum" where
  "maxCost ds = foldl Math_max (Fin 0) (map cost ds)"

section \<open>Scales\<close>

definition m_top :: real where "m_top = 28"
definition m_right :: real where "m_right = 20"
definition m_bottom :: real where "m_bottom = 38"
definition m_left :: real where "m_left = 60"

definition width :: "host \<Rightarrow> int" where
  "width h =
     (case getWidth h of
        Some w \<Rightarrow> w
      | None \<Rightarrow> (if clientWidth h \<noteq> 0 then clientWidth h else 600))"

definition height :: "host \<Rightarrow> int" where
  "height h =
     (case getHeight h of
        Some w \<Rightarrow> w
      | None \<Rightarrow> (if clientHeight h \<noteq> 0 then clientHeight h else 400))"

definition W :: "host \<Rightarrow> jsnum" where
  "W h = Math_max (Fin 100) (js_sub (js_sub (Fin (real_of_int (width h))) (Fin m_left)) (Fin m_right))"

definition H :: "host \<Rightarrow> jsnum" where
  "H h = Math_max (Fin 80) (js_sub (js_sub (Fin (real_of_int (height h))) (Fin m_top)) (Fin m_bottom))"

definition xScale :: "host \<Rightarrow> jsnum \<Rightarrow> jsnum \<Rightarrow> jsnum" where
  "xScale h tot v = js_add (Fin m_left) (js_mul (js_div v tot) (W h))"

text \<open>The divisor of \<open>yScale\<close>: \<open>maxCost - minCost || 1\<close>.\<close>

definition divisor :: "jsnum \<Rightarrow> jsnum \<Rightarrow> jsnum" where
  "divisor lo hi = or_num (js_sub hi lo) (Fin 1)"

definition yScale :: "host \<Rightarrow> jsnum \<Rightarrow> jsnum \<Rightarrow> jsnum \<Rightarrow> jsnum" where
  "yScale h lo hi v =
     js_add (Fin m_top) (js_sub (H h) (js_mul (js_div (js_sub v lo) (divisor lo hi)) (H h)))"

definition yZero :: "host \<Rightarrow> jsnum \<Rightarrow> jsnum \<Rightarrow> jsnum" where
  "yZero h lo hi = yScale h lo hi (Fin 0)"

section \<open>The scene\<close>

text \<open>
  A DOM element as \<open>draw\<close> builds it: its tag, the attributes set with
  \<open>setAttribute\<close> (in the order of the source, holding the values passed), the
  properties of its \<open>style\<close> that are assigned, its \<open>textContent\<close> and its children.
\<close>

datatype node =
  Element (tag: string) (attrs: "(string \<times> prim) list") (css: "(string \<times> string) list")
    (textContent: string) (children: "node list")

text \<open>
  The values one pass of the bar loop computes on lines 184 to 189: \<open>x\<close>, \<open>y\<close>,
  \<open>w\<close>, \<open>h\<close> and \<open>fill\<close> of the source. The text of macc.js ends inside that loop
  on line 192, right after the \<open>rect\<close> element is created: no line of the source
  gives these values to the element or appends it, so the record holds what the loop
  has computed and not an element that is drawn.
\<close>

record bar =
  bar_x :: jsnum
  bar_y :: jsnum
  bar_w :: jsnum
  bar_h :: jsnum
  bar_fill :: prim

text \<open>What \<open>draw\<close> leaves under the root element, which it empties first (line 72):
  the message of the empty state, or the \<open>svg\<close> element as lines 129 to 180 build
  it, together with the values the bar loop computes in its passes. The bar group of
  the \<open>svg\<close> element is appended empty on line 180, and the source text ends before
  anything is added to it.\<close>

datatype scene = EmptyState node | Chart node "bar list"

definition empty_message :: string where
  "empty_message =
     ''Adicione campos v'' @ [CHR 0xC3, CHR 0xA1] @ ''lidos: A'' @ [CHR 0xC3, CHR 0xA7, CHR 0xC3, CHR 0xA3]
     @ ''o (dimens'' @ [CHR 0xC3, CHR 0xA3] @ ''o), Abatimento (>0, m'' @ [CHR 0xC3, CHR 0xA9]
     @ ''trica) e Custo marginal (m'' @ [CHR 0xC3, CHR 0xA9] @ ''trica).''"

definition empty_node :: node where
  "empty_node =
     Element ''div'' []
       [(''cssText'',
         ''display:flex;align-items:center;justify-content:center;width:100%;height:100%;font:14px/1.2 system-ui;color:#666;text-align:center;padding:12px;'')]
       empty_message []"

definition xTicks :: nat where "xTicks = 6"
definition yTicks :: nat where "yTicks = 5"

text \<open>\<open>for (let i=0; i<=n; i++) body\<close>, where the body appends elements and may raise:
  an exception ends the loop.\<close>

function for_upto :: "nat \<Rightarrow> nat \<Rightarrow> (nat \<Rightarrow> error + node list) \<Rightarrow> error + node list" where
  "for_upto i n body =
     (if i \<le> n then
        (case body i of
           Inl e \<Rightarrow> Inl e
         | Inr ns \<Rightarrow>
             (case for_upto (Suc i) n body of Inl e \<Rightarrow> Inl e | Inr rest \<Rightarrow> Inr (ns @ rest)))
      else Inr [])"
  by pat_completeness auto
termination
  by (relation "measure (\<lambda>(i, n, body). Suc n - i)") auto

declare for_upto.simps [simp del]

definition xAxis :: "host \<Rightarrow> style_bag \<Rightarrow> jsnum \<Rightarrow> node" where
  "xAxis h styles y0 =
     Element ''line''
       [(''x1'', JNum (Fin m_left)), (''y1'', JNum y0),
        (''x2'', JNum (js_add (Fin m_left) (W h))), (''y2'', JNum y0),
        (''stroke'', axisColor styles), (''stroke-width'', JStr ''1'')]
       [] [] []"

text \<open>The two elements of one pass of the loop of lines 145 to 159: the tick mark at
  \<open>x\<close> and its label with the text \<open>s\<close>.\<close>

definition tick_line :: "style_bag \<Rightarrow> jsnum \<Rightarrow> jsnum \<Rightarrow> node" where
  "tick_line styles y0 x =
     Element ''line''
       [(''x1'', JNum x), (''x2'', JNum x),
        (''y1'', JNum y0), (''y2'', JNum (js_add y0 (Fin 5))),
        (''stroke'', axisColor styles)]
       [] [] []"

definition tick_label :: "style_bag \<Rightarrow> jsnum \<Rightarrow> jsnum \<Rightarrow> string \<Rightarrow> node" where
  "tick_label styles y0 x s =
     Element ''text''
       [(''x'', JNum x), (''y'', JNum (js_add y0 (Fin 18))),
        (''text-anchor'', JStr ''middle''), (''fill'', axisColor styles)]
       [] s []"

text \<open>\<open>t\<close> of line 146: the quantity at tick \<open>i\<close>.\<close>

definition tick_t :: "jsnum \<Rightarrow> nat \<Rightarrow> jsnum" where
  "tick_t tot i = js_mul (js_div tot (Fin (real xTicks))) (Fin (real i))"

definition x_tick :: "host \<Rightarrow> style_bag \<Rightarrow> jsnum \<Rightarrow> jsnum \<Rightarrow> nat \<Rightarrow> error + node list" where
  "x_tick h styles tot y0 i =
     (let t = tick_t tot i;
          x = xScale h tot t
      in case fmtNumber h t (Fin 0) of
           Inl e \<Rightarrow> Inl e
         | Inr s \<Rightarrow>
             Inr [tick_line styles y0 x,
                  tick_label styles y0 x (s @ '' '' @ String_val h (unit_sym styles))])"

text \<open>The two elements of one pass of the loop of lines 163 to 177: the grid line at
  \<open>y\<close> and its label with the text \<open>s\<close>.\<close>

definition grid_line :: "host \<Rightarrow> jsnum \<Rightarrow> node" where
  "grid_line h y =
     Element ''line''
       [(''x1'', JNum (Fin m_left)), (''x2'', JNum (js_add (Fin m_left) (W h))),
        (''y1'', JNum y), (''y2'', JNum y),
        (''stroke'', JStr ''rgba(0,0,0,.08)'')]
       [] [] []"

definition grid_label :: "style_bag \<Rightarrow> jsnum \<Rightarrow> string \<Rightarrow> node" where
  "grid_label styles y s =
     Element ''text''
       [(''x'', JNum (Fin (m_left - 8))), (''y'', JNum (js_add y (Fin 4))),
        (''text-anchor'', JStr ''end''), (''fill'', axisColor styles)]
       [] s []"

text \<open>\<open>v\<close> of line 164: the cost at grid line \<open>i\<close>.\<close>

definition tick_v :: "jsnum \<Rightarrow> jsnum \<Rightarrow> nat \<Rightarrow> jsnum" where
  "tick_v lo hi i = js_add lo (js_mul (Fin (real i / real yTicks)) (js_sub hi lo))"

definition y_tick :: "host \<Rightarrow> style_bag \<Rightarrow> jsnum \<Rightarrow> jsnum \<Rightarrow> nat \<Rightarrow> error + node list" where
  "y_tick h styles lo hi i =
     (let v = tick_v lo hi i;
          y = yScale h lo hi v
      in case fmtNumber h v (decimals h styles) of
           Inl e \<Rightarrow> Inl e
         | Inr s \<Rightarrow>
             Inr [grid_line h y,
                  grid_label styles y (String_val h (currency styles) @ '' '' @ s @ ''/t'')])"

definition mk_bar :: "host \<Rightarrow> style_bag \<Rightarrow> jsnum \<Rightarrow> jsnum \<Rightarrow> jsnum \<Rightarrow> placed \<Rightarrow> bar" where
  "mk_bar h styles tot lo hi d =
     (let x = xScale h tot (x0 d);
          x2 = xScale h tot (x1 d)
      in \<lparr> bar_x = x,
           bar_y = (if js_le (Fin 0) (cost d) then yScale h lo hi (cost d) else yZero h lo hi),
           bar_w = Math_max (Fin 1) (js_sub x2 x),
           bar_h = Math_max (Fin 1) (Math_abs (js_sub (yScale h lo hi (cost d)) (yZero h lo hi))),
           bar_fill = (if js_le (Fin 0) (cost d) then posColor styles else negColor styles) \<rparr>)"

definition styles_of :: "data \<Rightarrow> style_bag" where
  "styles_of d = (case style d of None \<Rightarrow> (\<lambda>k. None) | Some s \<Rightarrow> s)"

text \<open>The \<open>svg\<close> element (lines 129 to 133) with its children.\<close>

definition svg_node :: "host \<Rightarrow> node list \<Rightarrow> node" where
  "svg_node h cs =
     Element ''svg''
       [(''width'', JNum (Fin (real_of_int (width h)))),
        (''height'', JNum (Fin (real_of_int (height h))))]
       [(''font'', ''12px system-ui, -apple-system, Segoe UI, Roboto, sans-serif'')]
       [] cs"

text \<open>
  The chart branch of \<open>draw\<close> (lines 110 to 192) on the non-empty item list. An
  exception of a label's formatting leaves \<open>draw\<close> at once; the elements already
  appended stay in the document, which the result \<open>Inl\<close> does not show. The result
  holds the \<open>svg\<close> element with the empty bar group of line 180, and beside it the
  values lines 184 to 189 compute for each placed item, in the order of the loop: the
  source text stops on line 192, so the elements the loop draws from these values are
  no part of this definition (\<open>rect_node\<close> below takes them from the specification).
  The field id and the interaction type of lines 89 to 91 and 181 are used only after
  the point where the source text ends, and are left out.
\<close>

definition draw_chart :: "host \<Rightarrow> style_bag \<Rightarrow> item list \<Rightarrow> error + scene" where
  "draw_chart h styles its =
     (let sorted = Array_sort by_cost its;
          tot = totalAbatement sorted;
          ds = accumulate (Fin 0) sorted;
          lo = minCost sorted;
          hi = maxCost sorted;
          y0 = yZero h lo hi
      in case for_upto 0 xTicks (x_tick h styles tot y0) of
           Inl e \<Rightarrow> Inl e
         | Inr xt \<Rightarrow>
             (case for_upto 0 yTicks (y_tick h styles lo hi) of
                Inl e \<Rightarrow> Inl e
              | Inr yt \<Rightarrow>
                  Inr (Chart
                    (svg_node h
                       ([Element ''g'' [] [] [] (xAxis h styles y0 # xt)] @ yt
                        @ [Element ''g'' [] [] [] []]))
                    (map (mk_bar h styles tot lo hi) ds))))"

definition draw :: "host \<Rightarrow> data \<Rightarrow> error + scene" where
  "draw h d =
     (let its = items h (rows_of d)
      in if its = [] then Inr (EmptyState empty_node)
         else draw_chart h (styles_of d) its)"

section \<open>Reading a scene\<close>

text \<open>
  The children of the axis group (the first child of the \<open>svg\<close> element: the baseline,
  then the tick marks and their labels) and the other children of the \<open>svg\<close> element
  (the grid lines and their labels, then the bar group).
\<close>

fun axis_children :: "scene \<Rightarrow> node list" where
  "axis_children (Chart (Element t a c s (g # rest)) bs) = children g"
| "axis_children _ = []"

fun plot_children :: "scene \<Rightarrow> node list" where
  "plot_children (Chart (Element t a c s (g # rest)) bs) = rest"
| "plot_children _ = []"

text \<open>The elements \<open>draw\<close> leaves under the root element, which it empties on line
  72: the message appended on line 106, or the \<open>svg\<close> element appended on line 133.\<close>

fun root_children :: "scene \<Rightarrow> node list" where
  "root_children (EmptyState n) = [n]"
| "root_children (Chart svg bs) = [svg]"

text \<open>The values the bar loop has computed, one record for each pass.\<close>

fun bars_of :: "scene \<Rightarrow> bar list" where
  "bars_of (Chart svg bs) = bs"
| "bars_of _ = []"



definition tick_marks :: "scene \<Rightarrow> node list" where
  "tick_marks s = filter (\<lambda>n. tag n = ''line'') (drop 1 (axis_children s))"

definition tick_labels :: "scene \<Rightarrow> node list" where
  "tick_labels s = filter (\<lambda>n. tag n = ''text'') (axis_children s)"

definition grid_lines :: "scene \<Rightarrow> node list" where
  "grid_lines s = filter (\<lambda>n. tag n = ''line'') (plot_children s)"

definition grid_labels :: "scene \<Rightarrow> node list" where
  "grid_labels s = filter (\<lambda>n. tag n = ''text'') (plot_children s)"

section \<open>Valid items\<close>

text \<open>
  The chart item of the specification's data model: a finite, strictly positive
  quantity and a finite cost. The filter of line 100 (\<open>keep\<close>) checks the quantity only.
\<close>

definition valid :: "'a item_scheme \<Rightarrow> bool" where
  "valid d = (isFinite (abatement d) \<and> js_lt (Fin 0) (abatement d) \<and> isFinite (cost d))"

section \<open>Example inputs\<close>

text \<open>
  A host with a 680 by 466 container (a plot area of 600 by 400). Its conversions are
  placeholders: no string is a number for it (the example rows hold numbers, and the
  one string they convert, \<open>abc\<close>, is NaN in every engine), and every formatted number
  reads \<open>#\<close>.
\<close>

definition host0 :: host where
  "host0 =
     \<lparr> getWidth = Some 680, getHeight = Some 466, clientWidth = 0, clientHeight = 0,
       stringToNumber = (\<lambda>s. NaN), numberToString = (\<lambda>n. ''#''),
       localeFormat = (\<lambda>n d. ''#''), maxFractionDigits = 100 \<rparr>"

definition mk_row :: "string \<Rightarrow> prim \<Rightarrow> prim \<Rightarrow> row" where
  "mk_row a q c =
     \<lparr> actionDim = Some [JStr a], abatementMetric = Some [q], costMetric = Some [c],
       categoryDim = None \<rparr>"

text \<open>The scenario of the specification: A (10 at cost 5), B (20 at cost -3) and C
  (0 at cost 1).\<close>

definition rows0 :: "row list" where
  "rows0 =
     [mk_row ''A'' (JNum (Fin 10)) (JNum (Fin 5)),
      mk_row ''B'' (JNum (Fin 20)) (JNum (Fin (- 3))),
      mk_row ''C'' (JNum (Fin 0)) (JNum (Fin 1))]"

definition data0 :: data where
  "data0 = \<lparr> style = None, tables = Some \<lparr> DEFAULT = Some rows0 \<rparr> \<rparr>"

definition itemA :: item where
  "itemA = \<lparr> action = JStr ''A'', abatement = Fin 10, cost = Fin 5, category = Null \<rparr>"

definition itemB :: item where
  "itemB = \<lparr> action = JStr ''B'', abatement = Fin 20, cost = Fin (- 3), category = Null \<rparr>"

text \<open>A third item with the cost of A, to watch the order of equal costs.\<close>

definition itemD :: item where
  "itemD = \<lparr> action = JStr ''D'', abatement = Fin 4, cost = Fin 5, category = Null \<rparr>"

text \<open>Two items of cost 0: the cost domain is the single point 0.\<close>

definition itemE :: item where
  "itemE = \<lparr> action = JStr ''E'', abatement = Fin 10, cost = Fin 0, category = Null \<rparr>"

definition itemF :: item where
  "itemF = \<lparr> action = JStr ''F'', abatement = Fin 20, cost = Fin 0, category = Null \<rparr>"

text \<open>Two items whose running sum is rounded: \<open>2^53 + 1\<close> is no double, and the
  nearest double is \<open>2^53\<close>.\<close>

definition itemG :: item where
  "itemG =
     \<lparr> action = JStr ''G'', abatement = Fin 9007199254740992, cost = Fin 1, category = Null \<rparr>"

definition itemH :: item where
  "itemH = \<lparr> action = JStr ''H'', abatement = Fin 1, cost = Fin 2, category = Null \<rparr>"

text \<open>Rows whose cost is not a finite number: the string \<open>abc\<close> and \<open>Infinity\<close>.\<close>

definition rows_bad :: "row list" where
  "rows_bad =
     [mk_row ''A'' (JNum (Fin 10)) (JStr ''abc''),
      mk_row ''B'' (JNum (Fin 20)) (JNum PInf)]"

text \<open>Rows that the filter drops all: a zero and a negative quantity.\<close>

definition rows_none :: "row list" where
  "rows_none =
     [mk_row ''A'' (JNum (Fin 0)) (JNum (Fin 5)),
      mk_row ''B'' (JNum (Fin (- 2))) (JNum (Fin 1))]"

definition data_none :: data where
  "data_none = \<lparr> style = None, tables = Some \<lparr> DEFAULT = Some rows_none \<rparr> \<rparr>"

text \<open>A style bag that sets \<open>decimals\<close> to 0.\<close>

definition styles_zero :: style_bag where
  "styles_zero =
     (\<lambda>k. if k = ''decimals''
          then Some \<lparr> entry_value = Prim (JNum (Fin 0)), defaultValue = Prim (JNum (Fin 2)) \<rparr>
          else None)"



section \<open>The order of the costs\<close>

text \<open>A key that orders the numbers as \<open><=\<close> does (NaN apart, which it puts last), to
  compare \<open>Array_sort\<close> with the library's stable sort.\<close>

fun rank :: "jsnum \<Rightarrow> nat \<times> real" where
  "rank NInf = (0, 0)"
| "rank (Fin r) = (1, r)"
| "rank PInf = (2, 0)"
| "rank NaN = (3, 0)"

section \<open>Ranges\<close>

text \<open>The half-open interval \<open>[x0, x1)\<close> of a placed item holds the quantity \<open>v\<close>.\<close>

definition covers :: "placed \<Rightarrow> real \<Rightarrow> bool" where
  "covers p v = (js_le (x0 p) (Fin v) \<and> js_lt (Fin v) (x1 p))"

text \<open>The values the rounded running sum takes on valid items: a double that is not
  negative, or \<open>Infinity\<close>.\<close>

fun nonneg_double :: "jsnum \<Rightarrow> bool" where
  "nonneg_double (Fin a) = (0 \<le> a \<and> fl a = Fin a)"
| "nonneg_double PInf = True"
| "nonneg_double _ = False"

section \<open>Reading a result\<close>

text \<open>The digit counts \<open>toLocaleString\<close> accepts.\<close>

definition digits_ok :: "host \<Rightarrow> jsnum \<Rightarrow> bool" where
  "digits_ok h d = (isFinite d \<and> 0 \<le> fin_val d \<and> fin_val d \<le> real (maxFractionDigits h))"

text \<open>The number of tick marks on the quantity axis and of grid lines on the cost
  axis in what \<open>draw\<close> returns.\<close>

fun tick_counts :: "error + scene \<Rightarrow> (nat \<times> nat) option" where
  "tick_counts (Inr sc) = Some (length (tick_marks sc), length (grid_lines sc))"
| "tick_counts (Inl e) = None"

section \<open>The elements of the axes\<close>

text \<open>The two elements of pass \<open>i\<close> of each tick loop, as \<open>x_tick\<close> and \<open>y_tick\<close>
  build them when the formatting of the label succeeds.\<close>

definition x_pair :: "host \<Rightarrow> style_bag \<Rightarrow> jsnum \<Rightarrow> jsnum \<Rightarrow> nat \<Rightarrow> node list" where
  "x_pair h styles tot y0 i =
     [tick_line styles y0 (xScale h tot (tick_t tot i)),
      tick_label styles y0 (xScale h tot (tick_t tot i))
        (localeFormat h (tick_t tot i) (Fin 0) @ '' '' @ String_val h (unit_sym styles))]"

definition y_pair :: "host \<Rightarrow> style_bag \<Rightarrow> jsnum \<Rightarrow> jsnum \<Rightarrow> nat \<Rightarrow> node list" where
  "y_pair h styles lo hi i =
     [grid_line h (yScale h lo hi (tick_v lo hi i)),
      grid_label styles (yScale h lo hi (tick_v lo hi i))
        (String_val h (currency styles) @ '' ''
         @ localeFormat h (tick_v lo hi i) (decimals h styles) @ ''/t'')]"

section \<open>Arithmetic on finite numbers\<close>

lemma js_sub_Fin [simp]: "js_sub (Fin a) (Fin b) = Fin (a - b)"
  by (simp add: js_sub_def)

lemma Math_max_Fin [simp]: "Math_max (Fin a) (Fin b) = Fin (max a b)"
  by (simp add: Math_max_def max_def)

lemma Math_min_Fin [simp]: "Math_min (Fin a) (Fin b) = Fin (min a b)"
  by (simp add: Math_min_def min_def)

lemma W_Fin: "W h = Fin (max 100 (real_of_int (width h) - 80))"
  by (simp add: W_def m_left_def m_right_def)

lemma H_Fin: "H h = Fin (max 80 (real_of_int (height h) - 66))"
  by (simp add: H_def m_top_def m_bottom_def)

lemma truthy_num_iff: "truthy_num n \<longleftrightarrow> n \<noteq> Fin 0 \<and> n \<noteq> NaN"
  by (cases n) auto

lemma isFinite_iff: "isFinite n \<longleftrightarrow> (\<exists>r. n = Fin r)"
  by (cases n) auto

lemma js_lt_sub: "js_lt (Fin 0) (js_sub a b) \<Longrightarrow> js_lt b a"
  by (cases a; cases b) (auto simp: js_sub_def)

lemma not_js_lt_sub: "\<not> js_lt (Fin 0) (js_sub a b) \<Longrightarrow> \<not> isNaN a \<Longrightarrow> \<not> isNaN b \<Longrightarrow> js_le a b"
  by (cases a; cases b) (auto simp: js_sub_def)

lemma js_lt_le: "js_lt a b \<Longrightarrow> js_le a b"
  by (cases a; cases b) auto

lemma js_le_trans: "js_le a b \<Longrightarrow> js_le b c \<Longrightarrow> js_le a c"
  by (cases a; cases b; cases c) auto

section \<open>The style options\<close>

text \<open>
  Claim C10. The number of decimal places used for the cost labels is never 0 (nor
  NaN): when the \<open>decimals\<close> option is missing, or is set to a value that \<open>Number\<close>
  converts to 0 or to NaN (a non-numeric value), the value used is the default 2.
\<close>

theorem decimals_never_zero:
  "decimals h styles \<noteq> Fin 0 \<and> decimals h styles \<noteq> NaN \<and>
   (styles ''decimals'' = None \<longrightarrow> decimals h styles = Fin 2) \<and>
   (\<forall>e. styles ''decimals'' = Some e \<and> entry_value e \<noteq> Prim Undefined \<and> entry_value e \<noteq> Prim Null \<and>
        (Number_val h (entry_value e) = Fin 0 \<or> Number_val h (entry_value e) = NaN)
        \<longrightarrow> decimals h styles = Fin 2)"
  by (auto simp: decimals_def or_num_def getStyle_def truthy_num_iff split: option.splits)

theorem decimals_never_zero_witness:
  "styles_zero ''decimals'' = Some \<lparr> entry_value = Prim (JNum (Fin 0)), defaultValue = Prim (JNum (Fin 2)) \<rparr>
   \<and> Number_val host0 (Prim (JNum (Fin 0))) = Fin 0
   \<and> decimals host0 styles_zero = Fin 2 \<and> decimals host0 styles_zero \<noteq> Fin 0
   \<and> decimals host0 (\<lambda>k. None) = Fin 2"
  using decimals_never_zero [of host0 styles_zero] decimals_never_zero [of host0 "\<lambda>k. None"]
  by (simp add: styles_zero_def)

section \<open>Sorting\<close>

lemma Array_sort_Nil [simp]: "Array_sort cmp [] = []"
  by (simp add: Array_sort_def)

lemma Array_sort_Cons: "Array_sort cmp (x # xs) = insert_sorted cmp x (Array_sort cmp xs)"
  by (simp add: Array_sort_def)

lemma insert_sorted_mset: "mset (insert_sorted cmp x ys) = add_mset x (mset ys)"
  by (induction ys) auto

lemma Array_sort_mset: "mset (Array_sort cmp xs) = mset xs"
  by (induction xs) (auto simp: Array_sort_Cons insert_sorted_mset)

lemma Array_sort_set: "set (Array_sort cmp xs) = set xs"
  by (metis Array_sort_mset set_mset_mset)

lemma Array_sort_length: "length (Array_sort cmp xs) = length xs"
  by (metis Array_sort_mset size_mset)

lemma Array_sort_empty_iff: "Array_sort cmp xs = [] \<longleftrightarrow> xs = []"
  by (metis Array_sort_length length_0_conv)

lemma insert_sorted_set: "set (insert_sorted cmp x ys) = insert x (set ys)"
  by (induction ys) auto

lemma insert_sorted_sorted:
  assumes "\<not> isNaN (cost x)" "\<forall>y\<in>set ys. \<not> isNaN (cost y)"
    and "sorted_wrt (\<lambda>a b. js_le (cost a) (cost b)) ys"
  shows "sorted_wrt (\<lambda>a b. js_le (cost a) (cost b)) (insert_sorted by_cost x ys)"
  using assms
proof (induction ys)
  case Nil
  then show ?case by simp
next
  case (Cons y ys)
  show ?case
  proof (cases "js_lt (Fin 0) (by_cost x y)")
    case True
    then have "js_le (cost y) (cost x)"
      by (simp add: by_cost_def js_lt_sub js_lt_le)
    with True Cons show ?thesis
      by (auto simp: insert_sorted_set)
  next
    case False
    with Cons.prems have xy: "js_le (cost x) (cost y)"
      by (simp add: by_cost_def not_js_lt_sub)
    have "\<forall>z\<in>set ys. js_le (cost x) (cost z)"
      using xy Cons.prems(3) by (auto intro: js_le_trans)
    with False xy Cons.prems(3) show ?thesis by simp
  qed
qed

lemma Array_sort_sorted:
  "\<forall>d\<in>set xs. \<not> isNaN (cost d) \<Longrightarrow>
   sorted_wrt (\<lambda>a b. js_le (cost a) (cost b)) (Array_sort by_cost xs)"
proof (induction xs)
  case Nil
  then show ?case by simp
next
  case (Cons x xs)
  then show ?case
    by (simp add: Array_sort_Cons insert_sorted_sorted Array_sort_set)
qed

text \<open>An item is moved past another only when its cost is strictly larger, so items
  of one cost are never reordered, whatever the costs are.\<close>

lemma by_cost_pos_neq: "js_lt (Fin 0) (by_cost x y) \<Longrightarrow> cost y \<noteq> cost x"
  by (cases "cost x"; cases "cost y") (auto simp: by_cost_def js_sub_def)

lemma insert_sorted_filter:
  "filter (\<lambda>d. cost d = c) (insert_sorted by_cost x ys) = filter (\<lambda>d. cost d = c) (x # ys)"
proof (induction ys)
  case Nil
  then show ?case by simp
next
  case (Cons y ys)
  then show ?case
    by (auto dest: by_cost_pos_neq)
qed

lemma Array_sort_stable:
  "filter (\<lambda>d. cost d = c) (Array_sort by_cost xs) = filter (\<lambda>d. cost d = c) xs"
  by (induction xs) (simp_all add: Array_sort_Cons insert_sorted_filter)

text \<open>
  On costs that are numbers the comparator is a linear order, and \<open>Array_sort\<close> is
  the stable sort by that order: any ascending, stable rearrangement of the input is
  the list it returns, so the choice of the sorting algorithm does not show.
\<close>

lemma rank_le: "\<not> isNaN a \<Longrightarrow> \<not> isNaN b \<Longrightarrow> rank a \<le> rank b \<longleftrightarrow> js_le a b"
  by (cases a; cases b) auto

lemma rank_inj: "rank a = rank b \<longleftrightarrow> a = b"
  by (cases a; cases b) auto

lemma by_cost_rank:
  "\<not> isNaN (cost x) \<Longrightarrow> \<not> isNaN (cost y) \<Longrightarrow>
   js_lt (Fin 0) (by_cost x y) \<longleftrightarrow> \<not> rank (cost x) \<le> rank (cost y)"
  by (cases "cost x"; cases "cost y") (auto simp: by_cost_def js_sub_def)

lemma insert_sorted_insort:
  "\<not> isNaN (cost x) \<Longrightarrow> \<forall>y\<in>set ys. \<not> isNaN (cost y) \<Longrightarrow>
   insert_sorted by_cost x ys = insort_key (\<lambda>d. rank (cost d)) x ys"
  by (induction ys) (auto simp: by_cost_rank)

lemma Array_sort_sort_key:
  "\<forall>d\<in>set xs. \<not> isNaN (cost d) \<Longrightarrow> Array_sort by_cost xs = sort_key (\<lambda>d. rank (cost d)) xs"
proof (induction xs)
  case Nil
  then show ?case by simp
next
  case (Cons x xs)
  then show ?case
    by (simp add: Array_sort_Cons insert_sorted_insort)
qed

lemma Array_sort_unique:
  assumes "\<forall>d\<in>set xs. \<not> isNaN (cost d)"
    and "mset ys = mset xs"
    and "sorted_wrt (\<lambda>a b. js_le (cost a) (cost b)) ys"
    and "\<forall>c. filter (\<lambda>d. cost d = c) ys = filter (\<lambda>d. cost d = c) xs"
  shows "ys = Array_sort by_cost xs"
proof -
  have nn: "\<forall>d\<in>set ys. \<not> isNaN (cost d)"
    using assms(1,2) by (metis set_mset_mset)
  have "sorted_wrt (\<lambda>a b. rank (cost a) \<le> rank (cost b)) ys"
    using assms(3) nn by (auto simp: rank_le elim!: sorted_wrt_mono_rel [rotated])
  then have s: "sorted (map (\<lambda>d. rank (cost d)) ys)"
    by (simp add: sorted_map)
  have f: "filter (\<lambda>x. rank (cost k) = rank (cost x)) ys = filter (\<lambda>x. rank (cost k) = rank (cost x)) xs" for k
    using assms(4) by (simp add: rank_inj eq_commute [of "cost k"])
  have "sort_key (\<lambda>d. rank (cost d)) xs = ys"
    using assms(2) f s by (intro properties_for_sort_key) auto
  then show ?thesis
    using assms(1) by (simp add: Array_sort_sort_key)
qed

text \<open>
  Claim C4. The sorter orders the items ascending by cost and is stable: the sorted
  list is ascending in cost, it holds the same items, and for every cost the items of
  that cost stand in their input order. The costs are numbers (none is NaN, on which
  no order is defined); the stability part needs no such condition.
\<close>

theorem sort_ascending_stable:
  assumes "\<forall>d\<in>set its. \<not> isNaN (cost d)"
  shows "sorted_wrt (\<lambda>a b. js_le (cost a) (cost b)) (Array_sort by_cost its) \<and>
         mset (Array_sort by_cost its) = mset its \<and>
         (\<forall>c. filter (\<lambda>d. cost d = c) (Array_sort by_cost its) = filter (\<lambda>d. cost d = c) its)"
  using assms by (simp add: Array_sort_sorted Array_sort_mset Array_sort_stable)

lemma sort_example: "Array_sort by_cost [itemA, itemB, itemD] = [itemB, itemA, itemD]"
  by (simp add: Array_sort_def by_cost_def itemA_def itemB_def itemD_def)

theorem sort_ascending_stable_witness:
  "\<not> isNaN (cost itemA) \<and> \<not> isNaN (cost itemB) \<and> \<not> isNaN (cost itemD) \<and>
   Array_sort by_cost [itemA, itemB, itemD] = [itemB, itemA, itemD] \<and>
   sorted_wrt (\<lambda>a b. js_le (cost a) (cost b)) [itemB, itemA, itemD] \<and>
   mset [itemB, itemA, itemD] = mset [itemA, itemB, itemD] \<and>
   filter (\<lambda>d. cost d = Fin 5) [itemB, itemA, itemD] = [itemA, itemD]"
proof -
  have "\<forall>d\<in>set [itemA, itemB, itemD]. \<not> isNaN (cost d)"
    by (simp add: itemA_def itemB_def itemD_def)
  from sort_ascending_stable [OF this] show ?thesis
    by (simp add: sort_example) (simp add: itemA_def itemB_def itemD_def)
qed

section \<open>The normalized items\<close>

lemma items_keep: "d \<in> set (items h rows) \<Longrightarrow> isFinite (abatement d) \<and> js_lt (Fin 0) (abatement d)"
  by (simp add: items_def keep_def)

text \<open>Rows whose cost converts to a finite number give valid items.\<close>

lemma items_valid:
  "\<forall>r\<in>set rows. isFinite (cost (mk_item h r)) \<Longrightarrow> \<forall>d\<in>set (items h rows). valid d"
  by (auto simp: items_def keep_def valid_def)

lemma items_rows0: "items host0 rows0 = [itemA, itemB]"
  by (simp add: items_def rows0_def mk_row_def mk_item_def keep_def itemA_def itemB_def)

text \<open>
  Claim C2, at the rows of \<open>rows_bad\<close>: both rows pass the filter of line 100, which
  reads the quantity only, and the normalized items carry the costs NaN and Infinity.
\<close>

theorem items_keep_nonfinite_cost:
  "map cost (items host0 rows_bad) = [NaN, PInf] \<and>
   map abatement (items host0 rows_bad) = [Fin 10, Fin 20]"
  by (simp add: items_def rows_bad_def mk_row_def mk_item_def keep_def host0_def)

text \<open>A NaN cost that passes the filter makes the whole cost domain NaN, and with it
  every pixel row \<open>yScale\<close> computes.\<close>

lemma foldl_min_NaN: "foldl Math_min NaN cs = NaN"
  by (induction cs) (simp_all add: Math_min_def)

lemma foldl_max_NaN: "foldl Math_max NaN cs = NaN"
  by (induction cs) (simp_all add: Math_max_def)

lemma cost_NaN_domain:
  assumes "d \<in> set ds" "cost d = NaN"
  shows "minCost ds = NaN \<and> maxCost ds = NaN"
proof -
  have "NaN \<in> set (map cost ds)"
    using assms by force
  then have "foldl Math_min a (map cost ds) = NaN \<and> foldl Math_max a (map cost ds) = NaN" for a
  proof (induction "map cost ds" arbitrary: a ds)
    case Nil
    then show ?case by simp
  next
    case (Cons c cs)
    then show ?case
      by (cases ds) (auto simp: Math_min_def Math_max_def foldl_min_NaN foldl_max_NaN)
  qed
  then show ?thesis
    by (simp add: minCost_def maxCost_def)
qed

lemma NaN_domain_yScale: "yScale h NaN NaN v = NaN"
  by (cases v) (simp_all add: yScale_def divisor_def or_num_def js_sub_def H_Fin)

section \<open>Accumulation\<close>

lemma valid_not_NaN: "valid d \<Longrightarrow> \<not> isNaN (cost d)"
  by (cases "cost d") (auto simp: valid_def)

lemma valid_pos: "valid d \<Longrightarrow> 0 < fin_val (abatement d)"
  by (cases "abatement d") (auto simp: valid_def)

lemma valid_examples: "valid itemA" "valid itemB" "valid itemD" "valid itemE" "valid itemF"
  by (simp_all add: valid_def itemA_def itemB_def itemD_def itemE_def itemF_def)

lemma valid_GH: "valid itemG" "valid itemH"
  by (simp_all add: valid_def itemG_def itemH_def)

lemma accumulate_length [simp]: "length (accumulate acc ds) = length ds"
  by (induction ds arbitrary: acc) auto

lemma accumulate_truncate: "map item.truncate (accumulate acc ds) = ds"
  by (induction ds arbitrary: acc) (auto simp: item.truncate_def)

lemma costs_accumulate: "map cost (accumulate acc ds) = map cost ds"
  by (induction ds arbitrary: acc) auto

lemma foldl_add_Fin:
  "\<forall>d\<in>set ds. isFinite (abatement d) \<Longrightarrow>
   foldl (\<lambda>s d. js_add s (abatement d)) (Fin a) ds
   = Fin (a + sum_list (map (\<lambda>d. fin_val (abatement d)) ds))"
proof (induction ds arbitrary: a)
  case Nil
  then show ?case by simp
next
  case (Cons d ds)
  from Cons.prems(1) obtain q where q: "abatement d = Fin q"
    by (auto simp: isFinite_iff)
  with Cons show ?case by (simp add: add.assoc)
qed

lemma totalAbatement_Fin:
  "\<forall>d\<in>set ds. isFinite (abatement d) \<Longrightarrow>
   totalAbatement ds = Fin (sum_list (map (\<lambda>d. fin_val (abatement d)) ds))"
  by (simp add: totalAbatement_def foldl_add_Fin)

lemma sum_pos_valid:
  "ds \<noteq> [] \<Longrightarrow> \<forall>d\<in>set ds. valid d \<Longrightarrow> 0 < sum_list (map (\<lambda>d. fin_val (abatement d)) ds)"
proof (induction ds)
  case Nil
  then show ?case by simp
next
  case (Cons d ds)
  then show ?case
    by (cases ds) (auto simp: valid_pos add_pos_pos)
qed

lemma sort_AB: "Array_sort by_cost [itemA, itemB] = [itemB, itemA]"
  by (simp add: Array_sort_def by_cost_def itemA_def itemB_def)

section \<open>The rounded running sum\<close>

text \<open>The binade of a positive number.\<close>

lemma binade_eqI:
  assumes "0 < x" "2 powr real_of_int k \<le> x" "x < 2 powr (real_of_int k + 1)" "- 1022 \<le> k"
  shows "binade x = k"
proof -
  have "\<lfloor>log 2 x\<rfloor> = k"
    using assms(1-3) by (simp add: floor_log_eq_powr_iff)
  with assms(1,4) show ?thesis
    by (simp add: binade_def)
qed

lemma binade_bounds:
  assumes "0 < x"
  shows "x < 2 powr (real_of_int (binade x) + 1)"
    and "- 1022 \<le> binade x"
    and "- 1022 < binade x \<Longrightarrow> 2 powr real_of_int (binade x) \<le> x"
proof -
  define f where "f = \<lfloor>log 2 x\<rfloor>"
  have fl: "2 powr real_of_int f \<le> x \<and> x < 2 powr (real_of_int f + 1)"
    using assms floor_log_eq_powr_iff [of x 2 f] by (simp add: f_def)
  have b: "binade x = max f (- 1022)"
    using assms by (simp add: binade_def f_def)
  have "f \<le> binade x" unfolding b by linarith
  then have "2 powr (real_of_int f + 1) \<le> 2 powr (real_of_int (binade x) + 1)"
    by (intro powr_mono) auto
  with fl show "x < 2 powr (real_of_int (binade x) + 1)" by linarith
  show "- 1022 \<le> binade x" unfolding b by linarith
  show "2 powr real_of_int (binade x) \<le> x" if "- 1022 < binade x"
  proof -
    have "binade x = f" using that unfolding b by linarith
    with fl show ?thesis by simp
  qed
qed

lemma binade_low:
  assumes "0 < x" "x < 2 powr (- 1021)"
  shows "binade x = - 1022"
proof (rule ccontr)
  assume "binade x \<noteq> - 1022"
  with binade_bounds(2) [OF assms(1)] have b: "- 1022 < binade x" by linarith
  then have "2 powr (- 1021) \<le> 2 powr real_of_int (binade x)"
    by (intro powr_mono) auto
  with binade_bounds(3) [OF assms(1) b] assms(2) show False by linarith
qed

lemma binade_mono:
  assumes "0 < a" "a \<le> y"
  shows "binade a \<le> binade y"
proof -
  have "log 2 a \<le> log 2 y"
    using assms by simp
  then have "\<lfloor>log 2 a\<rfloor> \<le> \<lfloor>log 2 y\<rfloor>"
    by (rule floor_mono)
  moreover have "\<bar>a\<bar> = a" "\<bar>y\<bar> = y" using assms by simp_all
  ultimately show ?thesis
    unfolding binade_def by simp
qed

lemma ulp_pos: "0 < ulp x"
  by (simp add: ulp_def)

lemma powr_ulp: "2 powr (real_of_int e - 52) * 4503599627370496 = 2 powr real_of_int e"
proof -
  have "2 powr (real_of_int e - 52) * 2 powr 52 = 2 powr (real_of_int e - 52 + 52)"
    by (rule powr_add [symmetric])
  then show ?thesis by simp
qed

lemma powr_ulp1: "2 powr (real_of_int e - 52) * 9007199254740992 = 2 powr (real_of_int e + 1)"
proof -
  have "2 powr (real_of_int e - 52) * 2 powr 53 = 2 powr (real_of_int e - 52 + 53)"
    by (rule powr_add [symmetric])
  then show ?thesis by (simp add: add.commute)
qed

lemma round_even_floor: "\<lfloor>y\<rfloor> \<le> round_even y" "round_even y \<le> \<lfloor>y\<rfloor> + 1"
  by (simp_all add: round_even_def Let_def)

lemma round_even_int [simp]: "round_even (real_of_int k) = k"
  by (simp add: round_even_def)

lemma round_even_ge:
  assumes "real_of_int k \<le> y"
  shows "k \<le> round_even y"
proof -
  have "k \<le> \<lfloor>y\<rfloor>" using assms by (simp add: le_floor_iff)
  with round_even_floor(1) [of y] show ?thesis by linarith
qed

lemma round_even_le:
  assumes "y \<le> real_of_int k"
  shows "round_even y \<le> k"
proof (cases "y = real_of_int \<lfloor>y\<rfloor>")
  case True
  then have "round_even y = \<lfloor>y\<rfloor>"
    by (metis round_even_int)
  moreover have "\<lfloor>y\<rfloor> \<le> k"
    using assms by (simp add: floor_le_iff)
  ultimately show ?thesis by simp
next
  case False
  then have "real_of_int \<lfloor>y\<rfloor> < y"
    using of_int_floor_le [of y] by linarith
  with assms have "real_of_int \<lfloor>y\<rfloor> < real_of_int k" by linarith
  then have "\<lfloor>y\<rfloor> + 1 \<le> k" by simp
  with round_even_floor(2) [of y] show ?thesis by linarith
qed

text \<open>The significand of a positive number lies between 0 and \<open>2^53\<close>, and is at
  least \<open>2^52\<close> above the subnormal range.\<close>

lemma significand_bounds:
  assumes "0 < x"
  shows "0 \<le> round_even (x / ulp x)"
    and "round_even (x / ulp x) \<le> 9007199254740992"
    and "- 1022 < binade x \<Longrightarrow> 4503599627370496 \<le> round_even (x / ulp x)"
proof -
  have u: "0 < ulp x" by (rule ulp_pos)
  have "0 \<le> x / ulp x" using assms u by simp
  then show "0 \<le> round_even (x / ulp x)"
    using round_even_ge [of 0 "x / ulp x"] by simp
  have "x < ulp x * 9007199254740992"
    using binade_bounds(1) [OF assms] by (simp add: ulp_def powr_ulp1)
  then have "x / ulp x < 9007199254740992"
    using u by (simp add: pos_divide_less_eq mult.commute)
  then have "x / ulp x \<le> real_of_int 9007199254740992"
    by simp
  then show "round_even (x / ulp x) \<le> 9007199254740992"
    by (rule round_even_le)
  show "4503599627370496 \<le> round_even (x / ulp x)" if "- 1022 < binade x"
  proof -
    have "ulp x * 4503599627370496 \<le> x"
      using binade_bounds(3) [OF assms that] by (simp add: ulp_def powr_ulp)
    then have "4503599627370496 \<le> x / ulp x"
      using u by (simp add: pos_le_divide_eq mult.commute)
    then have "real_of_int 4503599627370496 \<le> x / ulp x"
      by simp
    then show ?thesis by (rule round_even_ge)
  qed
qed

lemma fl_pos:
  assumes "0 < x"
  shows "fl x = (if 2 powr 1024 \<le> real_of_int (round_even (x / ulp x)) * ulp x then PInf
                 else Fin (real_of_int (round_even (x / ulp x)) * ulp x))"
proof -
  have "0 \<le> real_of_int (round_even (x / ulp x)) * ulp x"
    using significand_bounds(1) [OF assms] ulp_pos [of x] by simp
  then show ?thesis
    using assms by (simp add: fl_def Let_def)
qed


text \<open>A rounded positive number is a double: rounding it again changes nothing.\<close>

lemma fl_idem:
  assumes "0 < x" "fl x = Fin r"
  shows "fl r = Fin r" and "0 \<le> r"
proof -
  define n where "n = round_even (x / ulp x)"
  define e where "e = binade x"
  have u: "ulp x = 2 powr (real_of_int e - 52)"
    by (simp add: ulp_def e_def)
  have r: "r = real_of_int n * ulp x" and small: "r < 2 powr 1024"
    using assms(2) unfolding fl_pos [OF assms(1)] n_def by (auto split: if_splits)
  have n0: "0 \<le> n" and n1: "n \<le> 9007199254740992"
    unfolding n_def using significand_bounds(1,2) [OF assms(1)] by simp_all
  show "0 \<le> r"
    using n0 ulp_pos [of x] by (simp add: r)
  consider "n = 0" | "n = 9007199254740992" | "0 < n" "n < 9007199254740992"
    using n0 n1 by linarith
  then show "fl r = Fin r"
  proof cases
    case 1
    then show ?thesis by (simp add: r fl_def)
  next
    case 2
    then have r2: "r = 2 powr (real_of_int (e + 1))"
      by (simp add: r u powr_ulp1 mult.commute)
    have rp: "0 < r" by (simp add: r2)
    have "r < 2 powr (real_of_int (e + 1) + 1)"
      unfolding r2 by (rule powr_less_mono) simp_all
    moreover have "- 1022 \<le> e + 1"
      using binade_bounds(2) [OF assms(1)] by (simp add: e_def)
    ultimately have b: "binade r = e + 1"
      using rp r2 by (intro binade_eqI) simp_all
    have ur: "ulp r = 2 powr (real_of_int (e + 1) - 52)"
      by (simp add: ulp_def b)
    have "ulp r * 4503599627370496 = 2 powr real_of_int (e + 1)"
      unfolding ur by (rule powr_ulp)
    then have ur2: "ulp r * 4503599627370496 = r"
      by (simp only: r2)
    then have q: "r / ulp r = real_of_int 4503599627370496"
      using ulp_pos [of r] by (simp add: field_simps)
    have "round_even (r / ulp r) = 4503599627370496"
      unfolding q by (rule round_even_int)
    then have "real_of_int (round_even (r / ulp r)) * ulp r = r"
      using ur2 by (simp add: mult.commute)
    then show ?thesis
      using small unfolding fl_pos [OF rp] by simp
  next
    case 3
    have rp: "0 < r"
      using 3(1) ulp_pos [of x] by (simp add: r)
    have "r < ulp x * 9007199254740992"
      using 3(2) ulp_pos [of x] by (simp add: r mult.commute)
    then have lt: "r < 2 powr (real_of_int e + 1)"
      by (simp add: u powr_ulp1)
    have b: "binade r = e"
    proof (cases "- 1022 < e")
      case True
      then have "4503599627370496 \<le> n"
        unfolding n_def e_def using significand_bounds(3) [OF assms(1)] by simp
      then have "ulp x * 4503599627370496 \<le> r"
        using ulp_pos [of x] by (simp add: r mult.commute)
      then have "2 powr real_of_int e \<le> r"
        by (simp add: u powr_ulp)
      with rp lt True show ?thesis
        by (intro binade_eqI) simp_all
    next
      case False
      with binade_bounds(2) [OF assms(1)] have e: "e = - 1022"
        by (simp add: e_def)
      with lt have "r < 2 powr (- 1021)" by simp
      with rp show ?thesis
        unfolding e by (rule binade_low)
    qed
    have ur: "ulp r = ulp x"
      by (simp add: ulp_def b e_def)
    have "r / ulp x = real_of_int n"
      using ulp_pos [of x] by (simp add: r)
    then have q: "r / ulp r = real_of_int n"
      by (simp only: ur)
    have "round_even (r / ulp r) = n"
      unfolding q by (rule round_even_int)
    then have "real_of_int (round_even (r / ulp r)) * ulp r = real_of_int n * ulp x"
      by (simp only: ur)
    also have "\<dots> = r"
      by (rule r [symmetric])
    finally have "real_of_int (round_even (r / ulp r)) * ulp r = r" .
    then show ?thesis
      using small unfolding fl_pos [OF rp] by simp
  qed
qed

text \<open>Adding a positive number to a double never gives a smaller one.\<close>

lemma fl_add_ge:
  assumes "0 \<le> a" "fl a = Fin a" "0 < q" "fl (a + q) = Fin r"
  shows "a \<le> r"
proof (cases "a = 0")
  case True
  with fl_idem(2) [of "a + q" r] assms show ?thesis by simp
next
  case False
  with assms(1) have ap: "0 < a" by simp
  define y where "y = a + q"
  have yp: "0 < y" and ay: "a \<le> y"
    using ap assms(3) by (simp_all add: y_def)
  define m where "m = round_even (a / ulp a)"
  have a: "a = real_of_int m * ulp a"
    using assms(2) unfolding fl_pos [OF ap] m_def by (auto split: if_splits)
  have r: "r = real_of_int (round_even (y / ulp y)) * ulp y"
    using assms(4) unfolding y_def [symmetric] fl_pos [OF yp] by (auto split: if_splits)
  have le: "binade a \<le> binade y"
    using ap ay by (rule binade_mono)
  show ?thesis
  proof (cases "binade a = binade y")
    case True
    then have u: "ulp y = ulp a" by (simp add: ulp_def)
    have "a / ulp a = real_of_int m"
      using ulp_pos [of a] a by (simp add: field_simps)
    moreover have "a / ulp a \<le> y / ulp a"
      using ay ulp_pos [of a] by (simp add: divide_right_mono)
    ultimately have "real_of_int m \<le> y / ulp y"
      by (simp add: u)
    then have "m \<le> round_even (y / ulp y)"
      by (rule round_even_ge)
    then have "real_of_int m * ulp a \<le> real_of_int (round_even (y / ulp y)) * ulp a"
      using ulp_pos [of a] by (simp add: mult_right_mono)
    then show ?thesis
      using a by (simp add: r u)
  next
    case False
    with le have lt: "binade a < binade y" by simp
    with binade_bounds(2) [OF ap] have big: "- 1022 < binade y" by linarith
    have "4503599627370496 \<le> round_even (y / ulp y)"
      using significand_bounds(3) [OF yp big] .
    then have "ulp y * 4503599627370496 \<le> r"
      using ulp_pos [of y] by (simp add: r mult.commute)
    then have "2 powr real_of_int (binade y) \<le> r"
      by (simp add: ulp_def powr_ulp)
    moreover have "2 powr (real_of_int (binade a) + 1) \<le> 2 powr real_of_int (binade y)"
      using lt by (intro powr_mono) simp_all
    ultimately show ?thesis
      using binade_bounds(1) [OF ap] by linarith
  qed
qed

text \<open>The rounding of a number whose binade is known.\<close>

lemma fl_eval:
  assumes "0 < x" "2 powr real_of_int k \<le> x" "x < 2 powr (real_of_int k + 1)" "- 1022 \<le> k"
    and "round_even (x / 2 powr (real_of_int k - 52)) = n"
    and "real_of_int n * 2 powr (real_of_int k - 52) < 2 powr 1024"
  shows "fl x = Fin (real_of_int n * 2 powr (real_of_int k - 52))"
proof -
  have b: "binade x = k"
    using assms(1-4) by (rule binade_eqI)
  have u: "ulp x = 2 powr (real_of_int k - 52)"
    by (simp add: ulp_def b)
  show ?thesis
    unfolding fl_pos [OF assms(1)] u assms(5) using assms(6) by simp
qed

lemma fl_0 [simp]: "fl 0 = Fin 0"
  by (simp add: fl_def)

lemma fl_20: "fl 20 = Fin 20"
  using fl_eval [of 20 4 "20 * 2 ^ 48"] by (simp add: round_even_def powr_minus_divide)

lemma fl_30: "fl 30 = Fin 30"
  using fl_eval [of 30 4 "30 * 2 ^ 48"] by (simp add: round_even_def powr_minus_divide)

lemma fl_2_53: "fl 9007199254740992 = Fin 9007199254740992"
  using fl_eval [of 9007199254740992 53 4503599627370496] by (simp add: round_even_def)

lemma fl_2_53_1: "fl 9007199254740993 = Fin 9007199254740992"
  using fl_eval [of 9007199254740993 53 4503599627370496] by (simp add: round_even_def)

lemma js_le_refl: "\<not> isNaN a \<Longrightarrow> js_le a a"
  by (cases a) auto

lemma js_lt_not_le: "js_lt a b \<Longrightarrow> \<not> js_le b a"
  by (cases a; cases b) auto

lemma not_js_lt_le: "\<not> js_lt a b \<Longrightarrow> \<not> isNaN a \<Longrightarrow> \<not> isNaN b \<Longrightarrow> js_le b a"
  by (cases a; cases b) auto

lemma nonneg_double_not_NaN: "nonneg_double a \<Longrightarrow> \<not> isNaN a"
  by (cases a) auto

text \<open>One step of the running sum: the sum stays a double that is not negative (or
  becomes \<open>Infinity\<close>) and does not decrease.\<close>

lemma double_add_step:
  assumes "nonneg_double acc" "0 < q"
  shows "nonneg_double (double_add acc (Fin q))" and "js_le acc (double_add acc (Fin q))"
proof -
  have "nonneg_double (double_add acc (Fin q)) \<and> js_le acc (double_add acc (Fin q))"
  proof (cases acc)
    case (Fin a)
    with assms have a: "0 \<le> a" "fl a = Fin a" by simp_all
    have p: "0 < a + q" using a(1) assms(2) by simp
    show ?thesis
    proof (cases "fl (a + q)")
      case (Fin r)
      from fl_idem [OF p Fin] fl_add_ge [OF a assms(2) Fin]
      show ?thesis by (simp add: \<open>acc = Fin a\<close> Fin)
    next
      case PInf
      then show ?thesis by (simp add: \<open>acc = Fin a\<close>)
    next
      case NInf
      then show ?thesis unfolding fl_pos [OF p] by (simp split: if_splits)
    next
      case NaN
      then show ?thesis unfolding fl_pos [OF p] by (simp split: if_splits)
    qed
  qed (use assms in simp_all)
  then show "nonneg_double (double_add acc (Fin q))" and "js_le acc (double_add acc (Fin q))"
    by simp_all
qed

lemma valid_quantity: "valid d \<Longrightarrow> \<exists>q. abatement d = Fin q \<and> 0 < q"
  by (cases "abatement d") (auto simp: valid_def)

lemma double_accumulate_length [simp]: "length (double_accumulate acc ds) = length ds"
  by (induction ds arbitrary: acc) auto

lemma double_accumulate_truncate: "map item.truncate (double_accumulate acc ds) = ds"
  by (induction ds arbitrary: acc) (auto simp: item.truncate_def)

lemma costs_double_accumulate: "map cost (double_accumulate acc ds) = map cost ds"
  by (induction ds arbitrary: acc) auto

lemma double_accumulate_hd: "ds \<noteq> [] \<Longrightarrow> x0 (hd (double_accumulate acc ds)) = acc"
  by (cases ds) auto

lemma double_accumulate_chain:
  "Suc i < length ds \<Longrightarrow> x0 (double_accumulate acc ds ! Suc i) = x1 (double_accumulate acc ds ! i)"
proof (induction ds arbitrary: acc i)
  case Nil
  then show ?case by simp
next
  case (Cons d ds)
  show ?case
  proof (cases i)
    case 0
    with Cons.prems show ?thesis by (cases ds) auto
  next
    case (Suc j)
    with Cons show ?thesis by simp
  qed
qed

lemma double_accumulate_last:
  "ds \<noteq> [] \<Longrightarrow>
   x1 (last (double_accumulate acc ds)) = foldl (\<lambda>s d. double_add s (abatement d)) acc ds"
proof (induction ds arbitrary: acc)
  case Nil
  then show ?case by simp
next
  case (Cons d ds)
  then show ?case by (cases ds) auto
qed

lemma double_accumulate_end:
  "p \<in> set (double_accumulate acc ds) \<Longrightarrow> x1 p = double_add (x0 p) (abatement p)"
  by (induction ds arbitrary: acc) auto

lemma double_accumulate_mono:
  "nonneg_double acc \<Longrightarrow> \<forall>d\<in>set ds. valid d \<Longrightarrow> p \<in> set (double_accumulate acc ds) \<Longrightarrow>
   js_le acc (x0 p) \<and> js_le (x0 p) (x1 p)"
proof (induction ds arbitrary: acc)
  case Nil
  then show ?case by simp
next
  case (Cons d ds)
  from Cons.prems(2) obtain q where q: "abatement d = Fin q" "0 < q"
    using valid_quantity [of d] by auto
  note st = double_add_step [OF Cons.prems(1) q(2)]
  from Cons.prems(3) consider "x0 p = acc" "x1 p = double_add acc (Fin q)"
    | "p \<in> set (double_accumulate (double_add acc (Fin q)) ds)"
    by (auto simp: q)
  then show ?case
  proof cases
    case 1
    with st(2) Cons.prems(1) show ?thesis
      by (simp add: js_le_refl nonneg_double_not_NaN)
  next
    case 2
    with Cons.IH [OF st(1)] Cons.prems(2)
    have "js_le (double_add acc (Fin q)) (x0 p) \<and> js_le (x0 p) (x1 p)" by simp
    with st(2) show ?thesis by (blast intro: js_le_trans)
  qed
qed

text \<open>Every quantity between the start and the final sum lies in the range of exactly
  one item.\<close>

lemma double_partition:
  assumes "nonneg_double acc" "\<forall>d\<in>set ds. valid d" "js_le acc (Fin v)"
    and "js_lt (Fin v) (foldl (\<lambda>s d. double_add s (abatement d)) acc ds)"
  shows "\<exists>!i. i < length ds \<and> covers (double_accumulate acc ds ! i) v"
  using assms
proof (induction ds arbitrary: acc)
  case Nil
  then show ?case by (auto dest: js_lt_not_le)
next
  case (Cons d ds)
  from Cons.prems(2) obtain q where q: "abatement d = Fin q" "0 < q"
    using valid_quantity [of d] by auto
  let ?a = "double_add acc (Fin q)"
  let ?ps = "double_accumulate ?a ds"
  note st = double_add_step [OF Cons.prems(1) q(2)]
  have later: "\<not> covers (?ps ! j) v" if "j < length ds" "js_lt (Fin v) ?a" for j
  proof
    assume c: "covers (?ps ! j) v"
    have "?ps ! j \<in> set ?ps" using that(1) by simp
    with double_accumulate_mono [OF st(1), of ds "?ps ! j"] Cons.prems(2)
    have "js_le ?a (x0 (?ps ! j))" by simp
    with c have "js_le ?a (Fin v)"
      by (auto simp: covers_def intro: js_le_trans)
    with that(2) show False by (auto dest: js_lt_not_le)
  qed
  show ?case
  proof (cases "js_lt (Fin v) ?a")
    case True
    show ?thesis
    proof (rule ex1I [of _ 0])
      show "0 < length (d # ds) \<and> covers (double_accumulate acc (d # ds) ! 0) v"
        using True Cons.prems(3) q by (simp add: covers_def)
    next
      fix i
      assume i: "i < length (d # ds) \<and> covers (double_accumulate acc (d # ds) ! i) v"
      show "i = 0"
      proof (cases i)
        case 0
        then show ?thesis .
      next
        case (Suc j)
        with i q later [of j] True show ?thesis by auto
      qed
    qed
  next
    case False
    then have le: "js_le ?a (Fin v)"
      using st(1) by (intro not_js_lt_le) (simp_all add: nonneg_double_not_NaN)
    have "\<exists>!j. j < length ds \<and> covers (?ps ! j) v"
      using st(1) Cons.prems(2,4) le q by (intro Cons.IH) simp_all
    then obtain j where j: "j < length ds" "covers (?ps ! j) v"
      and uniq: "\<And>k. k < length ds \<Longrightarrow> covers (?ps ! k) v \<Longrightarrow> k = j"
      by blast
    show ?thesis
    proof (rule ex1I [of _ "Suc j"])
      show "Suc j < length (d # ds) \<and> covers (double_accumulate acc (d # ds) ! Suc j) v"
        using j q by simp
    next
      fix i
      assume i: "i < length (d # ds) \<and> covers (double_accumulate acc (d # ds) ! i) v"
      show "i = Suc j"
      proof (cases i)
        case 0
        with i q False show ?thesis by (simp add: covers_def)
      next
        case (Suc k)
        with i q uniq [of k] show ?thesis by simp
      qed
    qed
  qed
qed

lemma sorted_double_accumulate:
  "sorted_wrt (\<lambda>a b. js_le (cost a) (cost b)) (double_accumulate acc ds)
   \<longleftrightarrow> sorted_wrt (\<lambda>a b. js_le (cost a) (cost b)) ds"
proof -
  have "sorted_wrt (\<lambda>a b. js_le (cost a) (cost b)) (double_accumulate acc ds)
        \<longleftrightarrow> sorted_wrt js_le (map cost (double_accumulate acc ds))"
    by (simp add: sorted_wrt_map)
  also have "\<dots> \<longleftrightarrow> sorted_wrt js_le (map cost ds)"
    by (simp add: costs_double_accumulate)
  finally show ?thesis by (simp add: sorted_wrt_map)
qed

text \<open>
  Claim C1, with the sums as the engine rounds them. For a non-empty list of valid
  items, after sorting and accumulation: the placed items are the sorted items,
  ascending in cost; the first range starts at 0; each later range starts where the one
  before ends; the end of every range is the double nearest to its start plus the
  quantity of its item, and is not below the start; the last range ends at the total,
  which is the running sum of the quantities in sorted order, rounded at every step;
  and every quantity from 0 up to the total (excluded) lies in exactly one range, so
  the ranges neither overlap nor leave a gap. The end of a range minus its start need
  not be the quantity of the item, and the total need not be the sum of the quantities.
\<close>

theorem ranges_chain:
  assumes "its \<noteq> []" and "\<forall>d\<in>set its. valid d"
  shows "let sorted = Array_sort by_cost its;
             ds = double_accumulate (Fin 0) sorted;
             tot = double_total sorted
         in map item.truncate ds = sorted \<and>
            sorted_wrt (\<lambda>a b. js_le (cost a) (cost b)) ds \<and>
            x0 (hd ds) = Fin 0 \<and>
            (\<forall>i. Suc i < length ds \<longrightarrow> x0 (ds ! Suc i) = x1 (ds ! i)) \<and>
            (\<forall>p\<in>set ds. x1 p = double_add (x0 p) (abatement p) \<and> js_le (x0 p) (x1 p)) \<and>
            x1 (last ds) = tot \<and>
            (\<forall>v. 0 \<le> v \<and> js_lt (Fin v) tot \<longrightarrow> (\<exists>!i. i < length ds \<and> covers (ds ! i) v))"
proof -
  let ?s = "Array_sort by_cost its"
  let ?ds = "double_accumulate (Fin 0) ?s"
  have ne: "?s \<noteq> []"
    using assms(1) by (simp add: Array_sort_empty_iff)
  have va: "\<forall>d\<in>set ?s. valid d"
    using assms(2) by (simp add: Array_sort_set)
  have z: "nonneg_double (Fin 0)"
    by simp
  have 1: "map item.truncate ?ds = ?s"
    by (rule double_accumulate_truncate)
  have 2: "sorted_wrt (\<lambda>a b. js_le (cost a) (cost b)) ?ds"
    using assms(2) by (simp add: sorted_double_accumulate Array_sort_sorted valid_not_NaN)
  have 3: "x0 (hd ?ds) = Fin 0"
    using ne by (rule double_accumulate_hd)
  have 4: "\<forall>i. Suc i < length ?ds \<longrightarrow> x0 (?ds ! Suc i) = x1 (?ds ! i)"
    by (simp add: double_accumulate_chain)
  have 5: "\<forall>p\<in>set ?ds. x1 p = double_add (x0 p) (abatement p) \<and> js_le (x0 p) (x1 p)"
    using double_accumulate_mono [OF z va] by (auto intro: double_accumulate_end)
  have 6: "x1 (last ?ds) = double_total ?s"
    using ne by (simp add: double_accumulate_last double_total_def)
  have 7: "\<forall>v. 0 \<le> v \<and> js_lt (Fin v) (double_total ?s)
             \<longrightarrow> (\<exists>!i. i < length ?ds \<and> covers (?ds ! i) v)"
    using double_partition [OF z va] by (simp add: double_total_def)
  show ?thesis
    unfolding Let_def by (intro conjI) (rule 1 2 3 4 5 6 7)+
qed

lemma sort_GH: "Array_sort by_cost [itemG, itemH] = [itemG, itemH]"
  by (simp add: Array_sort_def by_cost_def itemG_def itemH_def)

text \<open>
  The quantities \<open>2^53\<close> and 1: the running sum after the second item is the double
  nearest to \<open>2^53 + 1\<close>, which is \<open>2^53\<close>, so the range of the second item is empty,
  its end minus its start is 0 and not its quantity 1, and the total is not the sum
  \<open>2^53 + 1\<close> of the quantities.
\<close>

theorem ranges_counterexample:
  "valid itemG \<and> valid itemH \<and>
   map (\<lambda>p. (action p, abatement p, x0 p, x1 p))
     (double_accumulate (Fin 0) (Array_sort by_cost [itemG, itemH]))
   = [(JStr ''G'', Fin 9007199254740992, Fin 0, Fin 9007199254740992),
      (JStr ''H'', Fin 1, Fin 9007199254740992, Fin 9007199254740992)] \<and>
   double_sub (Fin 9007199254740992) (Fin 9007199254740992) = Fin 0 \<and>
   double_total (Array_sort by_cost [itemG, itemH]) = Fin 9007199254740992"
  by (simp add: valid_GH sort_GH double_total_def double_sub_def fl_2_53 fl_2_53_1)
    (simp add: itemG_def itemH_def fl_2_53 fl_2_53_1)

theorem ranges_chain_witness:
  "[itemA, itemB] \<noteq> [] \<and> valid itemA \<and> valid itemB \<and>
   map (\<lambda>p. (action p, x0 p, x1 p)) (double_accumulate (Fin 0) (Array_sort by_cost [itemA, itemB]))
     = [(JStr ''B'', Fin 0, Fin 20), (JStr ''A'', Fin 20, Fin 30)] \<and>
   double_total (Array_sort by_cost [itemA, itemB]) = Fin 30 \<and>
   x1 (last (double_accumulate (Fin 0) (Array_sort by_cost [itemA, itemB]))) = Fin 30"
proof -
  have "\<forall>d\<in>set [itemA, itemB]. valid d"
    by (simp add: valid_examples)
  from ranges_chain [OF _ this] show ?thesis
    by (simp add: sort_AB valid_examples double_total_def)
      (simp add: itemA_def itemB_def fl_20 fl_30)
qed

section \<open>The cost domain\<close>

lemma foldl_min_Fin:
  "\<forall>d\<in>set ds. isFinite (cost d) \<Longrightarrow>
   foldl Math_min (Fin a) (map cost ds) = Fin (fold min (map (\<lambda>d. fin_val (cost d)) ds) a)"
proof (induction ds arbitrary: a)
  case Nil
  then show ?case by simp
next
  case (Cons d ds)
  from Cons.prems obtain c where c: "cost d = Fin c"
    by (auto simp: isFinite_iff)
  with Cons show ?case by (simp add: min.commute)
qed

lemma foldl_max_Fin:
  "\<forall>d\<in>set ds. isFinite (cost d) \<Longrightarrow>
   foldl Math_max (Fin a) (map cost ds) = Fin (fold max (map (\<lambda>d. fin_val (cost d)) ds) a)"
proof (induction ds arbitrary: a)
  case Nil
  then show ?case by simp
next
  case (Cons d ds)
  from Cons.prems obtain c where c: "cost d = Fin c"
    by (auto simp: isFinite_iff)
  with Cons show ?case by (simp add: max.commute)
qed

lemma minCost_Fin:
  assumes "ds \<noteq> []" "\<forall>d\<in>set ds. isFinite (cost d)"
  shows "minCost ds = Fin (min 0 (Min ((\<lambda>d. fin_val (cost d)) ` set ds)))"
proof -
  have "minCost ds = Fin (Min (set (0 # map (\<lambda>d. fin_val (cost d)) ds)))"
    using assms(2) by (simp only: minCost_def foldl_min_Fin Min.set_eq_fold)
  also have "Min (set (0 # map (\<lambda>d. fin_val (cost d)) ds))
             = min 0 (Min ((\<lambda>d. fin_val (cost d)) ` set ds))"
    using assms(1) by (simp add: Min_insert)
  finally show ?thesis .
qed

lemma maxCost_Fin:
  assumes "ds \<noteq> []" "\<forall>d\<in>set ds. isFinite (cost d)"
  shows "maxCost ds = Fin (max 0 (Max ((\<lambda>d. fin_val (cost d)) ` set ds)))"
proof -
  have "maxCost ds = Fin (Max (set (0 # map (\<lambda>d. fin_val (cost d)) ds)))"
    using assms(2) by (simp only: maxCost_def foldl_max_Fin Max.set_eq_fold)
  also have "Max (set (0 # map (\<lambda>d. fin_val (cost d)) ds))
             = max 0 (Max ((\<lambda>d. fin_val (cost d)) ` set ds))"
    using assms(1) by (simp add: Max_insert)
  finally show ?thesis .
qed

text \<open>
  Claim C7. For a non-empty list of valid items the cost domain contains 0:
  \<open>minCost\<close> is the smaller of 0 and the least item cost, \<open>maxCost\<close> the larger of 0
  and the greatest item cost, so \<open>minCost <= 0 <= maxCost\<close>.
\<close>

theorem cost_domain_contains_zero:
  assumes "ds \<noteq> []" and "\<forall>d\<in>set ds. valid d"
  shows "minCost ds = Fin (min 0 (Min ((\<lambda>d. fin_val (cost d)) ` set ds))) \<and>
         maxCost ds = Fin (max 0 (Max ((\<lambda>d. fin_val (cost d)) ` set ds))) \<and>
         js_le (minCost ds) (Fin 0) \<and> js_le (Fin 0) (maxCost ds)"
proof -
  have "\<forall>d\<in>set ds. isFinite (cost d)"
    using assms(2) by (simp add: valid_def)
  with assms(1) show ?thesis
    by (simp add: minCost_Fin maxCost_Fin)
qed

theorem cost_domain_contains_zero_witness:
  "[itemB, itemA] \<noteq> [] \<and> valid itemA \<and> valid itemB \<and>
   minCost [itemB, itemA] = Fin (- 3) \<and> maxCost [itemB, itemA] = Fin 5 \<and>
   js_le (minCost [itemB, itemA]) (Fin 0) \<and> js_le (Fin 0) (maxCost [itemB, itemA])"
proof -
  have "\<forall>d\<in>set [itemB, itemA]. valid d"
    by (simp add: valid_examples)
  from cost_domain_contains_zero [OF _ this] show ?thesis
    by (simp add: valid_examples) (simp add: itemA_def itemB_def)
qed

section \<open>The empty state\<close>

text \<open>
  Claim C9. When no row passes the filter, \<open>draw\<close> returns without an error and
  leaves exactly one element under the root: a \<open>div\<close> without attributes and without
  children, whose style centres its content in both directions (\<open>display:flex\<close> with
  \<open>align-items:center\<close> and \<open>justify-content:center\<close>, over the full width and
  height, and \<open>text-align:center\<close>), and whose text is the instruction of line 105,
  given here in UTF-8 bytes: add valid fields, an action dimension, an abatement metric
  above 0 and a marginal cost metric. There is no \<open>svg\<close> element, so no axis, no tick,
  no grid line and no label, and the bar loop is not reached.
\<close>

theorem empty_state:
  assumes "items h (rows_of d) = []"
  shows "let msg = Element ''div'' []
                     [(''cssText'',
                       ''display:flex;align-items:center;justify-content:center;width:100%;height:100%;font:14px/1.2 system-ui;color:#666;text-align:center;padding:12px;'')]
                     (''Adicione campos v'' @ [CHR 0xC3, CHR 0xA1] @ ''lidos: A''
                    @ [CHR 0xC3, CHR 0xA7, CHR 0xC3, CHR 0xA3] @ ''o (dimens'' @ [CHR 0xC3, CHR 0xA3]
                    @ ''o), Abatimento (>0, m'' @ [CHR 0xC3, CHR 0xA9]
                    @ ''trica) e Custo marginal (m'' @ [CHR 0xC3, CHR 0xA9] @ ''trica).'')
                     [];
             sc = EmptyState msg
         in draw h d = Inr sc \<and>
            root_children sc = [msg] \<and>
            axis_children sc = [] \<and> plot_children sc = [] \<and>
            tick_marks sc = [] \<and> tick_labels sc = [] \<and>
            grid_lines sc = [] \<and> grid_labels sc = [] \<and>
            bars_of sc = []"
  using assms
  by (simp add: draw_def empty_node_def empty_message_def Let_def tick_marks_def tick_labels_def
      grid_lines_def grid_labels_def)

theorem empty_state_witness:
  "items host0 (rows_of data_none) = [] \<and>
   draw host0 data_none =
     Inr (EmptyState
       (Element ''div'' []
          [(''cssText'',
            ''display:flex;align-items:center;justify-content:center;width:100%;height:100%;font:14px/1.2 system-ui;color:#666;text-align:center;padding:12px;'')]
          (''Adicione campos v'' @ [CHR 0xC3, CHR 0xA1] @ ''lidos: A''
                    @ [CHR 0xC3, CHR 0xA7, CHR 0xC3, CHR 0xA3] @ ''o (dimens'' @ [CHR 0xC3, CHR 0xA3]
                    @ ''o), Abatimento (>0, m'' @ [CHR 0xC3, CHR 0xA9]
                    @ ''trica) e Custo marginal (m'' @ [CHR 0xC3, CHR 0xA9] @ ''trica).'')
          []))"
proof -
  have "items host0 (rows_of data_none) = []"
    by (simp add: items_def rows_of_def data_none_def rows_none_def mk_row_def mk_item_def keep_def)
  from empty_state [OF this] this show ?thesis
    by (simp add: Let_def)
qed

section \<open>The scales\<close>

lemma divisor_nonzero: "divisor lo hi \<noteq> Fin 0 \<and> divisor lo hi \<noteq> NaN"
  by (simp add: divisor_def or_num_def truthy_num_iff)

lemma divisor_Fin: "divisor (Fin l) (Fin u) = Fin (if u - l = 0 then 1 else u - l)"
  by (simp add: divisor_def or_num_def)

lemma xScale_Fin:
  "T \<noteq> 0 \<Longrightarrow> xScale h (Fin T) (Fin v) = Fin (m_left + v / T * fin_val (W h))"
  by (simp add: xScale_def W_Fin)

lemma yScale_Fin:
  "yScale h (Fin l) (Fin u) (Fin v)
   = Fin (m_top + (fin_val (H h) - (v - l) / (if u - l = 0 then 1 else u - l) * fin_val (H h)))"
  by (simp add: yScale_def divisor_Fin H_Fin)

lemma W_pos: "0 < fin_val (W h)"
  by (simp add: W_Fin)

lemma H_pos: "0 < fin_val (H h)"
  by (simp add: H_Fin)

lemma xScale_mono:
  assumes "0 < T" "js_le v v'"
  shows "js_le (xScale h (Fin T) v) (xScale h (Fin T) v')"
  using assms
  by (cases v; cases v') (auto simp: xScale_def W_Fin divide_right_mono mult_right_mono)

lemma yScale_antimono:
  assumes "l \<le> u" "js_le v v'"
  shows "js_le (yScale h (Fin l) (Fin u) v') (yScale h (Fin l) (Fin u) v)"
  using assms
  by (cases v; cases v') (auto simp: yScale_def H_Fin divisor_Fin js_sub_def divide_right_mono mult_right_mono)

lemma valid_costs_Fin:
  assumes "ds \<noteq> []" "\<forall>d\<in>set ds. valid d"
  shows "\<exists>l u. minCost ds = Fin l \<and> maxCost ds = Fin u \<and> l \<le> 0 \<and> 0 \<le> u \<and>
           (\<forall>d\<in>set ds. \<exists>c. cost d = Fin c \<and> l \<le> c \<and> c \<le> u)"
proof -
  let ?f = "\<lambda>d. fin_val (cost d)"
  have fin: "\<forall>d\<in>set ds. isFinite (cost d)"
    using assms(2) by (simp add: valid_def)
  have lo: "minCost ds = Fin (min 0 (Min (?f ` set ds)))"
    using assms(1) fin by (rule minCost_Fin)
  have hi: "maxCost ds = Fin (max 0 (Max (?f ` set ds)))"
    using assms(1) fin by (rule maxCost_Fin)
  have "\<exists>c. cost d = Fin c \<and> min 0 (Min (?f ` set ds)) \<le> c \<and> c \<le> max 0 (Max (?f ` set ds))"
    if "d \<in> set ds" for d
  proof -
    from fin that obtain c where c: "cost d = Fin c"
      by (auto simp: isFinite_iff)
    from that have "?f d \<in> ?f ` set ds" by (rule imageI)
    then have "Min (?f ` set ds) \<le> ?f d" "?f d \<le> Max (?f ` set ds)"
      by simp_all
    with c show ?thesis by (simp add: min_le_iff_disj le_max_iff_disj)
  qed
  with lo hi show ?thesis by auto
qed

lemma valid_total_pos:
  assumes "ds \<noteq> []" "\<forall>d\<in>set ds. valid d"
  shows "\<exists>T. totalAbatement ds = Fin T \<and> 0 < T"
  using assms by (simp add: totalAbatement_Fin valid_def sum_pos_valid)

text \<open>
  Claim C6. For a non-empty list of valid items (the total quantity is positive and
  \<open>minCost <= maxCost\<close>) the scales are monotonic and affine: \<open>xScale\<close> is
  non-decreasing, \<open>yScale\<close> is non-increasing (a higher cost is a smaller pixel y),
  and on finite arguments each is \<open>a * v + b\<close>, with \<open>a\<close> positive for \<open>xScale\<close> and
  negative for \<open>yScale\<close>.
\<close>

theorem scales_monotone:
  assumes "ds \<noteq> []" and "\<forall>d\<in>set ds. valid d"
  shows "(\<forall>v v'. js_le v v' \<longrightarrow>
            js_le (xScale h (totalAbatement ds) v) (xScale h (totalAbatement ds) v')) \<and>
         (\<forall>v v'. js_le v v' \<longrightarrow>
            js_le (yScale h (minCost ds) (maxCost ds) v') (yScale h (minCost ds) (maxCost ds) v)) \<and>
         (\<exists>a b. 0 < a \<and> (\<forall>v. xScale h (totalAbatement ds) (Fin v) = Fin (a * v + b))) \<and>
         (\<exists>a b. a < 0 \<and> (\<forall>v. yScale h (minCost ds) (maxCost ds) (Fin v) = Fin (a * v + b)))"
proof -
  from valid_total_pos [OF assms] obtain T where T: "totalAbatement ds = Fin T" "0 < T"
    by blast
  from valid_costs_Fin [OF assms] obtain l u
    where lu: "minCost ds = Fin l" "maxCost ds = Fin u" "l \<le> 0" "0 \<le> u"
    by blast
  define D where "D = (if u - l = 0 then 1 else u - l)"
  have D: "0 < D"
    using lu by (simp add: D_def)
  have 1: "\<forall>v v'. js_le v v' \<longrightarrow>
             js_le (xScale h (totalAbatement ds) v) (xScale h (totalAbatement ds) v')"
    using T by (simp add: xScale_mono)
  have 2: "\<forall>v v'. js_le v v' \<longrightarrow>
             js_le (yScale h (minCost ds) (maxCost ds) v') (yScale h (minCost ds) (maxCost ds) v)"
    using lu by (simp add: yScale_antimono)
  have "0 < fin_val (W h) / T"
    using T W_pos [of h] by simp
  moreover have "\<forall>v. xScale h (totalAbatement ds) (Fin v) = Fin (fin_val (W h) / T * v + m_left)"
    using T by (simp add: xScale_Fin)
  ultimately have 3: "\<exists>a b. 0 < a \<and> (\<forall>v. xScale h (totalAbatement ds) (Fin v) = Fin (a * v + b))"
    by blast
  have "- (fin_val (H h) / D) < 0"
    using D H_pos [of h] by simp
  moreover have "yScale h (minCost ds) (maxCost ds) (Fin v)
                   = Fin (- (fin_val (H h) / D) * v + (m_top + fin_val (H h) + l * fin_val (H h) / D))"
    for v
  proof -
    have "yScale h (minCost ds) (maxCost ds) (Fin v)
          = Fin (m_top + (fin_val (H h) - (v - l) / D * fin_val (H h)))"
      unfolding lu D_def by (rule yScale_Fin)
    also have "m_top + (fin_val (H h) - (v - l) / D * fin_val (H h))
               = - (fin_val (H h) / D) * v + (m_top + fin_val (H h) + l * fin_val (H h) / D)"
      using D by (simp add: field_simps)
    finally show ?thesis .
  qed
  ultimately have 4: "\<exists>a b. a < 0 \<and> (\<forall>v. yScale h (minCost ds) (maxCost ds) (Fin v) = Fin (a * v + b))"
    by blast
  from 1 2 3 4 show ?thesis by blast
qed

lemma bar_h_flat:
  "yScale h lo hi (cost p) = yZero h lo hi \<Longrightarrow> isFinite (yZero h lo hi) \<Longrightarrow>
   bar_h (mk_bar h styles tot lo hi p) = Fin 1"
  by (auto simp: mk_bar_def Let_def isFinite_iff)

text \<open>
  Claim C5. For a non-empty list of valid items the divisor of \<open>yScale\<close> is never
  zero, and \<open>yScale\<close> gives a finite pixel row for every finite cost. When
  \<open>maxCost = minCost\<close> the divisor is 1, the baseline is the bottom of the plot
  (\<open>top + H\<close>), and every cost of the chart (the cost of every item and the value of
  every grid line, all of them 0 then) is mapped to the baseline: every bar has the
  least height, 1.
\<close>

theorem yScale_divisor_guard:
  assumes "ds \<noteq> []" and "\<forall>d\<in>set ds. valid d"
  shows "divisor (minCost ds) (maxCost ds) \<noteq> Fin 0 \<and>
         isFinite (divisor (minCost ds) (maxCost ds)) \<and>
         (\<forall>v. isFinite (yScale h (minCost ds) (maxCost ds) (Fin v))) \<and>
         (maxCost ds = minCost ds \<longrightarrow>
            divisor (minCost ds) (maxCost ds) = Fin 1 \<and>
            yZero h (minCost ds) (maxCost ds) = js_add (Fin m_top) (H h) \<and>
            (\<forall>d\<in>set ds. yScale h (minCost ds) (maxCost ds) (cost d) = yZero h (minCost ds) (maxCost ds)) \<and>
            (\<forall>i. yScale h (minCost ds) (maxCost ds)
                    (tick_v (minCost ds) (maxCost ds) i)
                  = yZero h (minCost ds) (maxCost ds)) \<and>
            (\<forall>p\<in>set (accumulate (Fin 0) ds).
                bar_h (mk_bar h styles (totalAbatement ds) (minCost ds) (maxCost ds) p) = Fin 1))"
proof -
  from valid_costs_Fin [OF assms] obtain l u
    where lu: "minCost ds = Fin l" "maxCost ds = Fin u" "l \<le> 0" "0 \<le> u"
      and cs: "\<forall>d\<in>set ds. \<exists>c. cost d = Fin c \<and> l \<le> c \<and> c \<le> u"
    by blast
  have 1: "divisor (minCost ds) (maxCost ds) \<noteq> Fin 0"
    by (simp add: divisor_nonzero)
  have 2: "isFinite (divisor (minCost ds) (maxCost ds))"
    by (simp add: lu divisor_Fin)
  have 3: "\<forall>v. isFinite (yScale h (minCost ds) (maxCost ds) (Fin v))"
    by (simp add: lu yScale_Fin)
  have 4: "divisor (minCost ds) (maxCost ds) = Fin 1 \<and>
           yZero h (minCost ds) (maxCost ds) = js_add (Fin m_top) (H h) \<and>
           (\<forall>d\<in>set ds. yScale h (minCost ds) (maxCost ds) (cost d) = yZero h (minCost ds) (maxCost ds)) \<and>
           (\<forall>i. yScale h (minCost ds) (maxCost ds)
                   (tick_v (minCost ds) (maxCost ds) i)
                 = yZero h (minCost ds) (maxCost ds)) \<and>
           (\<forall>p\<in>set (accumulate (Fin 0) ds).
               bar_h (mk_bar h styles (totalAbatement ds) (minCost ds) (maxCost ds) p) = Fin 1)"
    if eq: "maxCost ds = minCost ds"
  proof -
    from eq lu have l0: "l = 0" and u0: "u = 0" by auto
    have zero: "\<forall>d\<in>set ds. cost d = Fin 0"
      using cs l0 u0 by auto
    have a: "divisor (minCost ds) (maxCost ds) = Fin 1"
      by (simp add: lu l0 u0 divisor_Fin)
    have b: "yZero h (minCost ds) (maxCost ds) = js_add (Fin m_top) (H h)"
      by (simp add: lu l0 u0 yZero_def yScale_Fin H_Fin)
    have c: "\<forall>d\<in>set ds. yScale h (minCost ds) (maxCost ds) (cost d) = yZero h (minCost ds) (maxCost ds)"
      using zero by (simp add: yZero_def)
    have d: "\<forall>i. yScale h (minCost ds) (maxCost ds)
                   (tick_v (minCost ds) (maxCost ds) i)
                 = yZero h (minCost ds) (maxCost ds)"
      by (simp add: lu l0 u0 yZero_def tick_v_def)
    have fz: "isFinite (yZero h (minCost ds) (maxCost ds))"
      by (simp add: b H_Fin)
    have "cost p = Fin 0" if "p \<in> set (accumulate (Fin 0) ds)" for p
    proof -
      from that have "cost p \<in> set (map cost (accumulate (Fin 0) ds))" by simp
      then have "cost p \<in> cost ` set ds" by (simp add: costs_accumulate)
      with zero show ?thesis by auto
    qed
    then have e: "\<forall>p\<in>set (accumulate (Fin 0) ds).
                    bar_h (mk_bar h styles (totalAbatement ds) (minCost ds) (maxCost ds) p) = Fin 1"
      using fz by (auto intro!: bar_h_flat simp: yZero_def)
    from a b c d e show ?thesis by blast
  qed
  from 1 2 3 4 show ?thesis by blast
qed

lemma total_AB: "totalAbatement [itemB, itemA] = Fin 30"
  by (simp add: totalAbatement_def itemA_def itemB_def)

lemma costs_AB: "minCost [itemB, itemA] = Fin (- 3)" "maxCost [itemB, itemA] = Fin 5"
  by (simp_all add: minCost_def maxCost_def itemA_def itemB_def)

lemma host0_size: "W host0 = Fin 600" "H host0 = Fin 400"
  by (simp_all add: W_Fin H_Fin width_def height_def host0_def)

theorem scales_monotone_witness:
  "[itemB, itemA] \<noteq> [] \<and> valid itemB \<and> valid itemA \<and>
   xScale host0 (totalAbatement [itemB, itemA]) (Fin 0) = Fin 60 \<and>
   xScale host0 (totalAbatement [itemB, itemA]) (Fin 30) = Fin 660 \<and>
   js_le (xScale host0 (totalAbatement [itemB, itemA]) (Fin 0))
         (xScale host0 (totalAbatement [itemB, itemA]) (Fin 30)) \<and>
   yScale host0 (minCost [itemB, itemA]) (maxCost [itemB, itemA]) (Fin (- 3)) = Fin 428 \<and>
   yScale host0 (minCost [itemB, itemA]) (maxCost [itemB, itemA]) (Fin 5) = Fin 28 \<and>
   js_le (yScale host0 (minCost [itemB, itemA]) (maxCost [itemB, itemA]) (Fin 5))
         (yScale host0 (minCost [itemB, itemA]) (maxCost [itemB, itemA]) (Fin (- 3)))"
proof -
  have v: "\<forall>d\<in>set [itemB, itemA]. valid d"
    by (simp add: valid_examples)
  have le: "js_le (Fin 0) (Fin 30)" "js_le (Fin (- 3)) (Fin 5)"
    by simp_all
  from scales_monotone [OF _ v, of host0] le show ?thesis
    by (simp add: valid_examples total_AB costs_AB xScale_Fin yScale_Fin host0_size m_left_def m_top_def)
qed

lemma costs_EF: "minCost [itemE, itemF] = Fin 0" "maxCost [itemE, itemF] = Fin 0"
  by (simp_all add: minCost_def maxCost_def itemE_def itemF_def)

theorem yScale_divisor_guard_witness:
  "[itemE, itemF] \<noteq> [] \<and> valid itemE \<and> valid itemF \<and>
   maxCost [itemE, itemF] = minCost [itemE, itemF] \<and>
   divisor (minCost [itemE, itemF]) (maxCost [itemE, itemF]) = Fin 1 \<and>
   yZero host0 (minCost [itemE, itemF]) (maxCost [itemE, itemF]) = Fin 428 \<and>
   yScale host0 (minCost [itemE, itemF]) (maxCost [itemE, itemF]) (cost itemE) = Fin 428 \<and>
   yScale host0 (minCost [itemE, itemF]) (maxCost [itemE, itemF]) (cost itemF) = Fin 428"
proof -
  have v: "\<forall>d\<in>set [itemE, itemF]. valid d"
    by (simp add: valid_examples)
  from yScale_divisor_guard [OF _ v, of host0] show ?thesis
    by (simp add: valid_examples costs_EF host0_size m_top_def)
qed

text \<open>On the one-point domain \<open>yScale\<close> is still the affine map of slope \<open>-H\<close>; it is
  the costs of the chart that are all 0 there.\<close>

lemma yScale_flat_domain:
  "yScale h (Fin 0) (Fin 0) (Fin v) = Fin (m_top + (fin_val (H h) - v * fin_val (H h)))"
  by (simp add: yScale_Fin)

section \<open>The chart\<close>

lemma for_upto_ok:
  "(\<And>i. a \<le> i \<Longrightarrow> i \<le> n \<Longrightarrow> body i = Inr (f i)) \<Longrightarrow>
   for_upto a n body = Inr (concat (map f [a..<Suc n]))"
proof (induction a n body rule: for_upto.induct)
  case (1 i n body)
  show ?case
  proof (cases "i \<le> n")
    case True
    then have b: "body i = Inr (f i)" by (simp add: "1.prems")
    have r: "for_upto (Suc i) n body = Inr (concat (map f [Suc i..<Suc n]))"
      using True b by (intro "1.IH") (auto simp: "1.prems")
    have u: "[i..<Suc n] = i # [Suc i..<Suc n]"
      using True by (simp add: upt_conv_Cons)
    show ?thesis
      by (subst for_upto.simps) (simp add: True b r u del: upt_Suc)
  next
    case False
    then show ?thesis
      by (subst for_upto.simps) simp
  qed
qed

lemma for_upto_raise:
  "a \<le> n \<Longrightarrow> body a = Inl e \<Longrightarrow> for_upto a n body = Inl e"
  by (subst for_upto.simps) simp

lemma toLocaleString_ok:
  "digits_ok h d \<Longrightarrow> toLocaleString h f d = Inr (localeFormat h f d)"
  by (cases d) (auto simp: digits_ok_def)

lemma toLocaleString_raise:
  "\<not> digits_ok h d \<Longrightarrow> toLocaleString h f d = Inl RangeError"
  by (cases d) (auto simp: digits_ok_def)

lemma tick_t_Fin: "tick_t (Fin T) i = Fin (T / 6 * real i)"
  by (simp add: tick_t_def xTicks_def)

lemma tick_v_Fin: "tick_v (Fin l) (Fin u) i = Fin (l + real i / 5 * (u - l))"
  by (simp add: tick_v_def yTicks_def)

lemma x_tick_ok: "x_tick h styles (Fin T) y0 i = Inr (x_pair h styles (Fin T) y0 i)"
  by (simp add: x_tick_def x_pair_def tick_t_Fin fmtNumber_def Let_def)

lemma y_tick_ok:
  "digits_ok h (decimals h styles) \<Longrightarrow>
   y_tick h styles (Fin l) (Fin u) i = Inr (y_pair h styles (Fin l) (Fin u) i)"
  by (simp add: y_tick_def y_pair_def tick_v_Fin fmtNumber_def Let_def toLocaleString_ok)

lemma y_tick_raise:
  "\<not> digits_ok h (decimals h styles) \<Longrightarrow> y_tick h styles (Fin l) (Fin u) i = Inl RangeError"
  by (simp add: y_tick_def tick_v_Fin fmtNumber_def Let_def toLocaleString_raise)

lemma upt_7: "[0..<7] = [0, 1, 2, 3, 4, 5, 6::nat]"
  by (simp add: upt_rec)

lemma upt_6: "[0..<6] = [0, 1, 2, 3, 4, 5::nat]"
  by (simp add: upt_rec)

lemma x_loop_ok:
  "for_upto 0 xTicks (x_tick h styles (Fin T) y0) = Inr (concat (map (x_pair h styles (Fin T) y0) [0..<7]))"
  using for_upto_ok [of 0 xTicks "x_tick h styles (Fin T) y0" "x_pair h styles (Fin T) y0"]
  by (simp add: x_tick_ok xTicks_def del: upt_Suc)

lemma y_loop_ok:
  "digits_ok h (decimals h styles) \<Longrightarrow>
   for_upto 0 yTicks (y_tick h styles (Fin l) (Fin u))
   = Inr (concat (map (y_pair h styles (Fin l) (Fin u)) [0..<6]))"
  using for_upto_ok [of 0 yTicks "y_tick h styles (Fin l) (Fin u)" "y_pair h styles (Fin l) (Fin u)"]
  by (simp add: y_tick_ok yTicks_def del: upt_Suc)

lemma y_loop_raise:
  "\<not> digits_ok h (decimals h styles) \<Longrightarrow>
   for_upto 0 yTicks (y_tick h styles (Fin l) (Fin u)) = Inl RangeError"
  by (rule for_upto_raise) (simp_all add: y_tick_raise)

lemma draw_chart_scene:
  assumes "its \<noteq> []" and "\<forall>d\<in>set its. valid d"
  shows "draw_chart h styles its =
     (let sorted = Array_sort by_cost its;
          tot = totalAbatement sorted;
          lo = minCost sorted;
          hi = maxCost sorted;
          y0 = yZero h lo hi
      in if digits_ok h (decimals h styles)
         then Inr (Chart
                (svg_node h
                   ([Element ''g'' [] [] [] (xAxis h styles y0 # concat (map (x_pair h styles tot y0) [0..<7]))]
                    @ concat (map (y_pair h styles lo hi) [0..<6])
                    @ [Element ''g'' [] [] [] []]))
                (map (mk_bar h styles tot lo hi) (accumulate (Fin 0) sorted)))
         else Inl RangeError)"
proof -
  let ?s = "Array_sort by_cost its"
  have ne: "?s \<noteq> []"
    using assms(1) by (simp add: Array_sort_empty_iff)
  have va: "\<forall>d\<in>set ?s. valid d"
    using assms(2) by (simp add: Array_sort_set)
  from valid_total_pos [OF ne va] obtain T where T: "totalAbatement ?s = Fin T"
    by blast
  from valid_costs_Fin [OF ne va] obtain l u
    where lu: "minCost ?s = Fin l" "maxCost ?s = Fin u"
    by blast
  show ?thesis
    by (simp add: draw_chart_def Let_def T lu x_loop_ok y_loop_ok y_loop_raise
        del: upt_Suc)
qed

section \<open>Ticks and grid lines\<close>

lemma count_x_pairs:
  "length (filter (\<lambda>n. tag n = ''line'') (concat (map (x_pair h styles tot y0) [0..<7]))) = 7"
  "length (filter (\<lambda>n. tag n = ''text'') (concat (map (x_pair h styles tot y0) [0..<7]))) = 7"
  by (simp_all add: upt_7 x_pair_def tick_line_def tick_label_def)

lemma count_y_pairs:
  "length (filter (\<lambda>n. tag n = ''line'') (concat (map (y_pair h styles lo hi) [0..<6]))) = 6"
  "length (filter (\<lambda>n. tag n = ''text'') (concat (map (y_pair h styles lo hi) [0..<6]))) = 6"
  by (simp_all add: upt_6 y_pair_def grid_line_def grid_label_def)

lemma draw_nonempty: "items h (rows_of d) \<noteq> [] \<Longrightarrow> draw h d = draw_chart h (styles_of d) (items h (rows_of d))"
  by (simp add: draw_def Let_def)

lemma tick_spacing:
  "tick_t (Fin T) 0 = Fin 0" "tick_t (Fin T) 6 = Fin T"
  "js_sub (tick_t (Fin T) (Suc i)) (tick_t (Fin T) i) = js_div (Fin T) (Fin 6)"
  by (simp_all add: tick_t_Fin field_simps)

lemma grid_spacing:
  "tick_v (Fin l) (Fin u) 0 = Fin l" "tick_v (Fin l) (Fin u) 5 = Fin u"
  "js_sub (tick_v (Fin l) (Fin u) (Suc i)) (tick_v (Fin l) (Fin u) i) = js_div (js_sub (Fin u) (Fin l)) (Fin 5)"
  by (simp_all add: tick_v_Fin field_simps)

text \<open>
  Claim C3, as the code has it. The tick loops run from 0 to \<open>xTicks\<close> and to
  \<open>yTicks\<close> inclusive. For a non-empty list of valid items, and a \<open>decimals\<close> option
  that \<open>toLocaleString\<close> accepts, \<open>draw\<close> returns a scene with exactly 7 tick marks
  and 7 tick labels on the quantity axis, at the quantities \<open>tick_t\<close> 0 to 6, which
  start at 0, end at the total quantity and are a sixth of it apart; and with exactly 6
  grid lines and 6 grid labels, at the costs \<open>tick_v\<close> 0 to 5, which start at
  \<open>minCost\<close>, end at \<open>maxCost\<close> and are a fifth of the domain apart. A tick label
  reads the quantity with no decimals, a space and the unit; a grid line spans the plot
  width and its label, anchored at its end, reads the currency, a space, the cost with
  the configured decimals and \<open>/t\<close> (\<open>x_pair\<close>, \<open>y_pair\<close>).
\<close>

theorem ticks_and_gridlines:
  assumes "items h (rows_of d) \<noteq> []" and "\<forall>x\<in>set (items h (rows_of d)). valid x"
    and "digits_ok h (decimals h (styles_of d))"
  shows "let styles = styles_of d;
             sorted = Array_sort by_cost (items h (rows_of d));
             tot = totalAbatement sorted;
             lo = minCost sorted;
             hi = maxCost sorted;
             y0 = yZero h lo hi
         in \<exists>sc. draw h d = Inr sc \<and>
              axis_children sc = xAxis h styles y0 # concat (map (x_pair h styles tot y0) [0..<7]) \<and>
              plot_children sc = concat (map (y_pair h styles lo hi) [0..<6]) @ [Element ''g'' [] [] [] []] \<and>
              length (tick_marks sc) = 7 \<and> length (tick_labels sc) = 7 \<and>
              length (grid_lines sc) = 6 \<and> length (grid_labels sc) = 6 \<and>
              tick_t tot 0 = Fin 0 \<and> tick_t tot 6 = tot \<and>
              (\<forall>i. js_sub (tick_t tot (Suc i)) (tick_t tot i) = js_div tot (Fin 6)) \<and>
              tick_v lo hi 0 = lo \<and> tick_v lo hi 5 = hi \<and>
              (\<forall>i. js_sub (tick_v lo hi (Suc i)) (tick_v lo hi i) = js_div (js_sub hi lo) (Fin 5))"
proof -
  let ?its = "items h (rows_of d)"
  let ?s = "Array_sort by_cost ?its"
  have ne: "?s \<noteq> []"
    using assms(1) by (simp add: Array_sort_empty_iff)
  have va: "\<forall>d\<in>set ?s. valid d"
    using assms(2) by (simp add: Array_sort_set)
  from valid_total_pos [OF ne va] obtain T where T: "totalAbatement ?s = Fin T"
    by blast
  from valid_costs_Fin [OF ne va] obtain l u
    where lu: "minCost ?s = Fin l" "maxCost ?s = Fin u"
    by blast
  have dr: "draw h d = draw_chart h (styles_of d) ?its"
    using assms(1) by (rule draw_nonempty)
  show ?thesis
    unfolding Let_def dr draw_chart_scene [OF assms(1,2)]
    by (simp add: assms(3) svg_node_def tick_marks_def tick_labels_def grid_lines_def grid_labels_def
        count_x_pairs count_y_pairs T lu tick_spacing grid_spacing xAxis_def del: upt_Suc)
qed

lemma decimals_default: "decimals h (\<lambda>k. None) = Fin 2"
  by (simp add: decimals_def getStyle_def or_num_def)

lemma data0_facts:
  "items host0 (rows_of data0) = [itemA, itemB]" "styles_of data0 = (\<lambda>k. None)"
  "digits_ok host0 (decimals host0 (styles_of data0))"
proof -
  show "items host0 (rows_of data0) = [itemA, itemB]"
    by (simp add: rows_of_def data0_def items_rows0)
  show s: "styles_of data0 = (\<lambda>k. None)"
    by (simp add: data0_def styles_of_def)
  show "digits_ok host0 (decimals host0 (styles_of data0))"
    by (simp add: s decimals_default digits_ok_def host0_def)
qed

text \<open>Claim C3 as stated (6 ticks, 5 grid lines) fails on the scenario of the
  specification: the scene has 7 tick marks and 6 grid lines.\<close>

theorem ticks_counterexample:
  "tick_counts (draw host0 data0) = Some (7, 6) \<and> tick_counts (draw host0 data0) \<noteq> Some (6, 5)"
proof -
  have v: "\<forall>x\<in>set [itemA, itemB]. valid x"
    by (simp add: valid_examples)
  have "draw host0 data0 = draw_chart host0 (\<lambda>k. None) [itemA, itemB]"
    using draw_nonempty [of host0 data0] by (simp add: data0_facts)
  then show ?thesis
    using data0_facts(3)
    by (simp add: draw_chart_scene [OF _ v] data0_facts Let_def svg_node_def tick_marks_def
        grid_lines_def count_x_pairs count_y_pairs xAxis_def del: upt_Suc)
qed

theorem ticks_and_gridlines_witness:
  "items host0 (rows_of data0) \<noteq> [] \<and> valid itemA \<and> valid itemB \<and>
   digits_ok host0 (decimals host0 (styles_of data0)) \<and>
   (\<exists>sc. draw host0 data0 = Inr sc \<and> length (tick_marks sc) = 7 \<and> length (tick_labels sc) = 7 \<and>
      length (grid_lines sc) = 6 \<and> length (grid_labels sc) = 6) \<and>
   map (tick_t (Fin 30)) [0, 3, 6] = [Fin 0, Fin 15, Fin 30] \<and>
   map (tick_v (Fin (- 3)) (Fin 5)) [0, 5] = [Fin (- 3), Fin 5]"
proof -
  have v: "\<forall>x\<in>set (items host0 (rows_of data0)). valid x"
    by (simp add: data0_facts valid_examples)
  from ticks_and_gridlines [OF _ v data0_facts(3)]
  obtain sc where "draw host0 data0 = Inr sc" "length (tick_marks sc) = 7"
    "length (tick_labels sc) = 7" "length (grid_lines sc) = 6" "length (grid_labels sc) = 6"
    by (auto simp: data0_facts Let_def)
  then have "\<exists>sc. draw host0 data0 = Inr sc \<and> length (tick_marks sc) = 7 \<and>
      length (tick_labels sc) = 7 \<and> length (grid_lines sc) = 6 \<and> length (grid_labels sc) = 6"
    by blast
  then show ?thesis
    using data0_facts(3) by (simp add: data0_facts(1,2) valid_examples tick_t_Fin tick_v_Fin)
qed

section \<open>Bars\<close>





lemma digits_ok_draws:
  assumes "its \<noteq> []" and "\<forall>d\<in>set its. valid d"
  shows "(\<exists>sc. draw_chart h styles its = Inr sc) \<longleftrightarrow> digits_ok h (decimals h styles)"
  by (simp add: draw_chart_scene [OF assms] Let_def)







end
